theory Spec2Isabelle
  imports Main "HOL-Library.Sublist"
begin

section \<open>Strings and the line scanner\<close>

text \<open>
  Go strings are byte sequences; \<open>string\<close> (a list of 8-bit characters) models them
  byte for byte. \<open>HasPrefix\<close> and \<open>TrimPrefix\<close> are the functions of Go's package
  \<open>strings\<close> that \<open>worktree.go\<close> calls.
\<close>

abbreviation (input) NL :: char where "NL \<equiv> CHR 0x0A"
abbreviation (input) CR :: char where "CR \<equiv> CHR 0x0D"

definition HasPrefix :: "string \<Rightarrow> string \<Rightarrow> bool" where
  "HasPrefix s p = (take (length p) s = p)"

definition TrimPrefix :: "string \<Rightarrow> string \<Rightarrow> string" where
  "TrimPrefix s p = (if HasPrefix s p then drop (length p) s else s)"

text \<open>
  \<open>bufio.Scanner\<close> with its default split function \<open>ScanLines\<close>: the input is cut at
  every newline, one trailing carriage return is removed from each line, and a last line
  without a newline is still delivered when it is not empty. A line of
  \<open>MaxScanTokenSize\<close> bytes or more does not fit the scanner's buffer: \<open>Scan\<close> then
  returns false (error \<open>ErrTooLong\<close>, which \<open>ParseWorktreeList\<close> does not look at) and the
  rest of the input is never read.
\<close>

definition MaxScanTokenSize :: nat where
  "MaxScanTokenSize = 64 * 1024"

definition dropCR :: "string \<Rightarrow> string" where
  "dropCR s = (if s \<noteq> [] \<and> last s = CR then butlast s else s)"

fun scan_lines :: "string \<Rightarrow> string list" where
  "scan_lines s =
     (if s = [] then []
      else if MaxScanTokenSize \<le> length (takeWhile (\<lambda>c. c \<noteq> NL) s) then []
      else dropCR (takeWhile (\<lambda>c. c \<noteq> NL) s)
           # scan_lines (drop (Suc (length (takeWhile (\<lambda>c. c \<noteq> NL) s))) s))"

declare scan_lines.simps [simp del]

section \<open>Worktree list parser (worktree.go)\<close>

record Worktree =
  Path :: string
  Branch :: string

text \<open>
  One iteration of the loop of \<open>ParseWorktreeList\<close>. The loop state is the slice
  \<open>worktrees\<close> built so far and the pointer \<open>current\<close> (\<open>None\<close> for nil).
\<close>

fun parse_step :: "Worktree list \<times> Worktree option \<Rightarrow> string \<Rightarrow> Worktree list \<times> Worktree option" where
  "parse_step (worktrees, current) line =
     (if HasPrefix line ''worktree '' then
        (worktrees, Some \<lparr>Path = TrimPrefix line ''worktree '', Branch = ''''\<rparr>)
      else if HasPrefix line ''branch refs/heads/'' then
        (case current of
           None \<Rightarrow> (worktrees, None)
         | Some c \<Rightarrow> (worktrees, Some (c\<lparr>Branch := TrimPrefix line ''branch refs/heads/''\<rparr>)))
      else if line = '''' then
        (case current of
           None \<Rightarrow> (worktrees, None)
         | Some c \<Rightarrow> (worktrees @ [c], None))
      else (worktrees, current))"

text \<open>After the loop: an open record is appended ("if there's no trailing newline").\<close>

fun parse_finish :: "Worktree list \<times> Worktree option \<Rightarrow> Worktree list" where
  "parse_finish (worktrees, None) = worktrees"
| "parse_finish (worktrees, Some c) = worktrees @ [c]"

definition parse_lines :: "string list \<Rightarrow> Worktree list" where
  "parse_lines ls = parse_finish (foldl parse_step ([], None) ls)"

definition ParseWorktreeList :: "string \<Rightarrow> Worktree list" where
  "ParseWorktreeList output = parse_lines (scan_lines output)"

text \<open>\<open>FindWorktreeByBranch\<close>: the \<open>for ... range\<close> loop returns at the first match.\<close>

fun FindWorktreeByBranch :: "Worktree list \<Rightarrow> string \<Rightarrow> string \<Rightarrow> Worktree option" where
  "FindWorktreeByBranch [] branch excludePath = None"
| "FindWorktreeByBranch (wt # worktrees) branch excludePath =
     (if Branch wt = branch \<and> Path wt \<noteq> excludePath then Some wt
      else FindWorktreeByBranch worktrees branch excludePath)"

subsection \<open>Well-formed listings\<close>

text \<open>
  A porcelain listing is a sequence of paragraph blocks. A block is given by the path of
  its \<open>worktree\<close> line and by its further lines (\<open>HEAD ...\<close>, \<open>branch refs/heads/...\<close>,
  \<open>detached\<close>, \<open>locked\<close>, ...); \<open>render_blocks\<close> writes the text, every block closed by a
  blank line. A line is acceptable when it has no newline inside, does not end in a
  carriage return and fits the scanner; the further lines of a block are not empty and
  do not start a new record. \<open>block_record\<close> is the record a block stands for: its branch
  is the one named by the last \<open>branch refs/heads/\<close> line, empty when there is none.
\<close>

type_synonym block = "string \<times> string list"

definition render_block :: "block \<Rightarrow> string" where
  "render_block b = ''worktree '' @ fst b @ [NL] @ concat (map (\<lambda>a. a @ [NL]) (snd b)) @ [NL]"

definition render_blocks :: "block list \<Rightarrow> string" where
  "render_blocks bs = concat (map render_block bs)"

definition line_ok :: "string \<Rightarrow> bool" where
  "line_ok l = (NL \<notin> set l \<and> length l < MaxScanTokenSize \<and> (l = [] \<or> last l \<noteq> CR))"

definition wf_block :: "block \<Rightarrow> bool" where
  "wf_block b = (line_ok (''worktree '' @ fst b) \<and>
     (\<forall>a \<in> set (snd b). line_ok a \<and> a \<noteq> [] \<and> \<not> HasPrefix a ''worktree ''))"

definition block_branch :: "string list \<Rightarrow> string" where
  "block_branch attrs =
     (if filter (\<lambda>a. HasPrefix a ''branch refs/heads/'') attrs = [] then []
      else TrimPrefix (last (filter (\<lambda>a. HasPrefix a ''branch refs/heads/'') attrs))
             ''branch refs/heads/'')"

definition block_record :: "block \<Rightarrow> Worktree" where
  "block_record b = \<lparr>Path = fst b, Branch = block_branch (snd b)\<rparr>"

definition block_lines :: "block \<Rightarrow> string list" where
  "block_lines b = (''worktree '' @ fst b) # snd b @ [[]]"

section \<open>The command runner (git.go)\<close>

text \<open>
  \<open>Git.Run\<close> and \<open>Git.RunInDir\<close> start the external program \<open>git\<close> and return its standard
  output, trimmed, together with the error of \<open>exec\<close>. The external program is a parameter
  of the model: a function from the argument vector and the state of the world to the raw
  output, the error (\<open>None\<close> for nil) and the new state of the world. A session pairs the
  world with the list of argument vectors issued so far, oldest first.
\<close>

datatype exec_error = ExecError string

type_synonym 'w exec = "string list \<Rightarrow> 'w \<Rightarrow> (string \<times> exec_error option) \<times> 'w"

record 'w session =
  world :: 'w
  issued :: "string list list"

text \<open>
  \<open>strings.TrimSpace\<close> removes the leading and the trailing white space of a string, white
  space being the runes of \<open>unicode.IsSpace\<close>. On bytes these are the UTF-8 encodings
  below: tab, newline, vertical tab, form feed, carriage return, space, U+0085, U+00A0,
  U+1680, U+2000 to U+200A, U+2028, U+2029, U+202F, U+205F and U+3000.
\<close>

definition space_encodings :: "string list" where
  "space_encodings =
    [[CHR 0x09], [CHR 0x0A], [CHR 0x0B], [CHR 0x0C], [CHR 0x0D], [CHR 0x20],
     [CHR 0xC2, CHR 0x85], [CHR 0xC2, CHR 0xA0], [CHR 0xE1, CHR 0x9A, CHR 0x80],
     [CHR 0xE2, CHR 0x80, CHR 0x80], [CHR 0xE2, CHR 0x80, CHR 0x81],
     [CHR 0xE2, CHR 0x80, CHR 0x82], [CHR 0xE2, CHR 0x80, CHR 0x83],
     [CHR 0xE2, CHR 0x80, CHR 0x84], [CHR 0xE2, CHR 0x80, CHR 0x85],
     [CHR 0xE2, CHR 0x80, CHR 0x86], [CHR 0xE2, CHR 0x80, CHR 0x87],
     [CHR 0xE2, CHR 0x80, CHR 0x88], [CHR 0xE2, CHR 0x80, CHR 0x89],
     [CHR 0xE2, CHR 0x80, CHR 0x8A], [CHR 0xE2, CHR 0x80, CHR 0xA8],
     [CHR 0xE2, CHR 0x80, CHR 0xA9], [CHR 0xE2, CHR 0x80, CHR 0xAF],
     [CHR 0xE2, CHR 0x81, CHR 0x9F], [CHR 0xE3, CHR 0x80, CHR 0x80]]"

function trim_left :: "string \<Rightarrow> string" where
  "trim_left s =
     (case find (\<lambda>e. prefix e s) space_encodings of
        None \<Rightarrow> s
      | Some e \<Rightarrow> trim_left (drop (length e) s))"
  by pat_completeness auto
termination
proof (relation "measure length")
  show "wf (measure length)" by simp
next
  fix s e :: string
  assume "find (\<lambda>e. prefix e s) space_encodings = Some e"
  then have "e \<in> set space_encodings" and "prefix e s"
    by (auto simp: find_Some_iff)
  then have "e \<noteq> []" and "length e \<le> length s"
    by (auto simp: space_encodings_def prefix_length_le)
  then show "(drop (length e) s, s) \<in> measure length"
    by (cases e) auto
qed

function trim_right :: "string \<Rightarrow> string" where
  "trim_right s =
     (case find (\<lambda>e. suffix e s) space_encodings of
        None \<Rightarrow> s
      | Some e \<Rightarrow> trim_right (take (length s - length e) s))"
  by pat_completeness auto
termination
proof (relation "measure length")
  show "wf (measure length)" by simp
next
  fix s e :: string
  assume "find (\<lambda>e. suffix e s) space_encodings = Some e"
  then have "e \<in> set space_encodings" and "suffix e s"
    by (auto simp: find_Some_iff)
  then have "e \<noteq> []" and "length e \<le> length s"
    by (auto simp: space_encodings_def suffix_length_le)
  then show "(take (length s - length e) s, s) \<in> measure length"
    by (cases e) auto
qed

declare trim_left.simps [simp del] trim_right.simps [simp del]

definition TrimSpace :: "string \<Rightarrow> string" where
  "TrimSpace s = trim_right (trim_left s)"

definition Run :: "'w exec \<Rightarrow> string list \<Rightarrow> 'w session \<Rightarrow> (string \<times> exec_error option) \<times> 'w session" where
  "Run git args s =
     (case git args (world s) of
        ((out, err), w) \<Rightarrow> ((TrimSpace out, err), \<lparr>world = w, issued = issued s @ [args]\<rparr>))"

definition RunInDir :: "'w exec \<Rightarrow> string \<Rightarrow> string list \<Rightarrow> 'w session \<Rightarrow> (string \<times> exec_error option) \<times> 'w session" where
  "RunInDir git dir args s =
     (case git ([''-C'', dir] @ args) (world s) of
        ((out, err), w) \<Rightarrow>
          ((TrimSpace out, err), \<lparr>world = w, issued = issued s @ [[''-C'', dir] @ args]\<rparr>))"

section \<open>The detach/revert engine (detach.go)\<close>

record Options =
  DryRun :: bool
  Revert_opt :: bool
  Force :: bool
  Yes :: bool

record Result =
  Success :: bool
  Message :: string
  WorktreePath :: string
  TempBranch :: string

text \<open>
  The engine's errors are made with \<open>fmt.Errorf\<close>. The model has one constructor for each
  place that makes one, with the values the message is formatted from (the error of
  \<open>exec\<close> where the source wraps it with \<open>%w\<close>); \<open>error_message\<close> is the text of
  \<open>err.Error()\<close>.
\<close>

datatype error =
    BranchNotFound string
  | TempBranchNotFound string
  | TempBranchConflict string
  | UncommittedChanges string
  | CurrentPathFailed exec_error
  | ListFailed exec_error
  | CreateFailed string exec_error
  | DeleteFailed string exec_error
  | CheckoutFailed string string exec_error

abbreviation (input) QUOTE :: char where "QUOTE \<equiv> CHR 0x27"

fun exec_message :: "exec_error \<Rightarrow> string" where
  "exec_message (ExecError m) = m"

fun error_message :: "error \<Rightarrow> string" where
  "error_message (BranchNotFound branch) =
     ''branch '' @ [QUOTE] @ branch @ [QUOTE] @ '' does not exist''"
| "error_message (TempBranchNotFound tmpBranch) =
     ''temporary branch '' @ [QUOTE] @ tmpBranch @ [QUOTE] @ '' does not exist''"
| "error_message (TempBranchConflict tmpBranch) =
     ''temporary branch '' @ [QUOTE] @ tmpBranch @ [QUOTE]
       @ '' already exists. Use --revert first or delete the branch manually''"
| "error_message (UncommittedChanges path) =
     ''uncommitted changes found in worktree: '' @ path @ [NL] @ ''  Use --force to override''"
| "error_message (CurrentPathFailed e) =
     ''failed to get current worktree path: '' @ exec_message e"
| "error_message (ListFailed e) = ''failed to list worktrees: '' @ exec_message e"
| "error_message (CreateFailed branch e) =
     ''failed to create branch '' @ [QUOTE] @ branch @ [QUOTE] @ '': '' @ exec_message e"
| "error_message (DeleteFailed branch e) =
     ''failed to delete branch '' @ [QUOTE] @ branch @ [QUOTE] @ '': '' @ exec_message e"
| "error_message (CheckoutFailed branch worktreePath e) =
     ''failed to checkout '' @ [QUOTE] @ branch @ [QUOTE] @ '' in '' @ [QUOTE] @ worktreePath
       @ [QUOTE] @ '': '' @ exec_message e"

text \<open>
  A \<open>Detacher\<close> holds the suffix (field \<open>suffix\<close> in the source); its field \<open>git\<close> is the
  stateless runner, which the functions below take as their first argument.
\<close>

record Detacher =
  suffix_field :: string

definition DefaultSuffix :: string where
  "DefaultSuffix = ''__wt_detach''"

definition NewDetacher :: Detacher where
  "NewDetacher = \<lparr>suffix_field = DefaultSuffix\<rparr>"

definition SetSuffix :: "Detacher \<Rightarrow> string \<Rightarrow> Detacher" where
  "SetSuffix d sfx = (if sfx \<noteq> '''' then d\<lparr>suffix_field := sfx\<rparr> else d)"

definition GetSuffix :: "Detacher \<Rightarrow> string" where
  "GetSuffix d = suffix_field d"

definition LoadSuffixFromConfig :: "'w exec \<Rightarrow> Detacher \<Rightarrow> 'w session \<Rightarrow> Detacher \<times> 'w session" where
  "LoadSuffixFromConfig git d s =
     (case Run git [''config'', ''--get'', ''wt-detach.suffix''] s of
        ((sfx, err), s') \<Rightarrow> (if err = None \<and> sfx \<noteq> '''' then d\<lparr>suffix_field := sfx\<rparr> else d, s'))"

definition TempBranchName :: "Detacher \<Rightarrow> string \<Rightarrow> string" where
  "TempBranchName d branch = branch @ suffix_field d"

definition BranchExists :: "'w exec \<Rightarrow> string \<Rightarrow> 'w session \<Rightarrow> bool \<times> 'w session" where
  "BranchExists git branch s =
     (case Run git [''rev-parse'', ''--verify'', ''refs/heads/'' @ branch] s of
        ((out, err), s') \<Rightarrow> (err = None, s'))"

definition GetCurrentWorktreePath :: "'w exec \<Rightarrow> 'w session \<Rightarrow> (error + string) \<times> 'w session" where
  "GetCurrentWorktreePath git s =
     (case Run git [''rev-parse'', ''--show-toplevel''] s of
        ((path, err), s') \<Rightarrow>
          (case err of Some e \<Rightarrow> (Inl (CurrentPathFailed e), s') | None \<Rightarrow> (Inr path, s')))"

definition ListWorktrees :: "'w exec \<Rightarrow> 'w session \<Rightarrow> (error + Worktree list) \<times> 'w session" where
  "ListWorktrees git s =
     (case Run git [''worktree'', ''list'', ''--porcelain''] s of
        ((output, err), s') \<Rightarrow>
          (case err of
             Some e \<Rightarrow> (Inl (ListFailed e), s')
           | None \<Rightarrow> (Inr (ParseWorktreeList output), s')))"

definition FindWorktreeForBranch :: "'w exec \<Rightarrow> string \<Rightarrow> 'w session \<Rightarrow> (error + Worktree option) \<times> 'w session" where
  "FindWorktreeForBranch git branch s =
     (case GetCurrentWorktreePath git s of
        (Inl e, s1) \<Rightarrow> (Inl e, s1)
      | (Inr currentPath, s1) \<Rightarrow>
          (case ListWorktrees git s1 of
             (Inl e, s2) \<Rightarrow> (Inl e, s2)
           | (Inr worktrees, s2) \<Rightarrow>
               (Inr (FindWorktreeByBranch worktrees branch currentPath), s2)))"

definition HasUncommittedChanges :: "'w exec \<Rightarrow> string \<Rightarrow> 'w session \<Rightarrow> bool \<times> 'w session" where
  "HasUncommittedChanges git worktreePath s =
     (case RunInDir git worktreePath [''status'', ''--porcelain''] s of
        ((output, err), s') \<Rightarrow> (if err \<noteq> None then True else output \<noteq> '''', s'))"

definition CreateBranch :: "'w exec \<Rightarrow> string \<Rightarrow> string \<Rightarrow> 'w session \<Rightarrow> error option \<times> 'w session" where
  "CreateBranch git branch worktreePath s =
     (case RunInDir git worktreePath [''branch'', branch] s of
        ((out, err), s') \<Rightarrow>
          (case err of Some e \<Rightarrow> (Some (CreateFailed branch e), s') | None \<Rightarrow> (None, s')))"

definition DeleteBranch :: "'w exec \<Rightarrow> string \<Rightarrow> 'w session \<Rightarrow> error option \<times> 'w session" where
  "DeleteBranch git branch s =
     (case Run git [''branch'', ''-D'', branch] s of
        ((out, err), s') \<Rightarrow>
          (case err of Some e \<Rightarrow> (Some (DeleteFailed branch e), s') | None \<Rightarrow> (None, s')))"

definition Checkout :: "'w exec \<Rightarrow> string \<Rightarrow> string \<Rightarrow> 'w session \<Rightarrow> error option \<times> 'w session" where
  "Checkout git worktreePath branch s =
     (case RunInDir git worktreePath [''checkout'', branch] s of
        ((out, err), s') \<Rightarrow>
          (case err of
             Some e \<Rightarrow> (Some (CheckoutFailed branch worktreePath e), s')
           | None \<Rightarrow> (None, s')))"

definition not_checked_out_message :: "string \<Rightarrow> string" where
  "not_checked_out_message branch =
     ''Branch '' @ [QUOTE] @ branch @ [QUOTE] @ '' is not checked out in any other worktree''"

definition detached_message :: "string \<Rightarrow> string" where
  "detached_message branch =
     ''Branch '' @ [QUOTE] @ branch @ [QUOTE] @ '' detached successfully''"

definition deleted_message :: "string \<Rightarrow> string" where
  "deleted_message tmpBranch = ''Deleted temporary branch '' @ [QUOTE] @ tmpBranch @ [QUOTE]"

definition restored_message :: "string \<Rightarrow> string" where
  "restored_message branch =
     ''Branch '' @ [QUOTE] @ branch @ [QUOTE] @ '' restored successfully''"

definition Detach :: "'w exec \<Rightarrow> Detacher \<Rightarrow> string \<Rightarrow> Options \<Rightarrow> 'w session \<Rightarrow> (error + Result) \<times> 'w session" where
  "Detach git d branch opts s0 =
     (case BranchExists git branch s0 of
        (False, s1) \<Rightarrow> (Inl (BranchNotFound branch), s1)
      | (True, s1) \<Rightarrow>
     (case FindWorktreeForBranch git branch s1 of
        (Inl e, s2) \<Rightarrow> (Inl e, s2)
      | (Inr None, s2) \<Rightarrow>
          (Inr \<lparr>Success = True, Message = not_checked_out_message branch,
                WorktreePath = '''', TempBranch = ''''\<rparr>, s2)
      | (Inr (Some wt), s2) \<Rightarrow>
     (case HasUncommittedChanges git (Path wt) s2 of
        (dirty, s3) \<Rightarrow>
     if dirty \<and> \<not> Force opts then (Inl (UncommittedChanges (Path wt)), s3)
     else
     (case BranchExists git (TempBranchName d branch) s3 of
        (True, s4) \<Rightarrow> (Inl (TempBranchConflict (TempBranchName d branch)), s4)
      | (False, s4) \<Rightarrow>
     if DryRun opts then
       (Inr \<lparr>Success = True, Message = ''dry-run'',
             WorktreePath = Path wt, TempBranch = TempBranchName d branch\<rparr>, s4)
     else
     (case CreateBranch git (TempBranchName d branch) (Path wt) s4 of
        (Some e, s5) \<Rightarrow> (Inl e, s5)
      | (None, s5) \<Rightarrow>
     (case Checkout git (Path wt) (TempBranchName d branch) s5 of
        (Some e, s6) \<Rightarrow>
          (case DeleteBranch git (TempBranchName d branch) s6 of
             (ignored, s7) \<Rightarrow> (Inl e, s7))
      | (None, s6) \<Rightarrow>
          (Inr \<lparr>Success = True, Message = detached_message branch,
                WorktreePath = Path wt, TempBranch = TempBranchName d branch\<rparr>, s6)))))))"

definition Revert :: "'w exec \<Rightarrow> Detacher \<Rightarrow> string \<Rightarrow> Options \<Rightarrow> 'w session \<Rightarrow> (error + Result) \<times> 'w session" where
  "Revert git d branch opts s0 =
     (case BranchExists git branch s0 of
        (False, s1) \<Rightarrow> (Inl (BranchNotFound branch), s1)
      | (True, s1) \<Rightarrow>
     (case BranchExists git (TempBranchName d branch) s1 of
        (False, s2) \<Rightarrow> (Inl (TempBranchNotFound (TempBranchName d branch)), s2)
      | (True, s2) \<Rightarrow>
     (case FindWorktreeForBranch git (TempBranchName d branch) s2 of
        (Inl e, s3) \<Rightarrow> (Inl e, s3)
      | (Inr None, s3) \<Rightarrow>
          if DryRun opts then
            (Inr \<lparr>Success = True, Message = ''dry-run: would delete branch'',
                  WorktreePath = '''', TempBranch = TempBranchName d branch\<rparr>, s3)
          else
            (case DeleteBranch git (TempBranchName d branch) s3 of
               (Some e, s4) \<Rightarrow> (Inl e, s4)
             | (None, s4) \<Rightarrow>
                 (Inr \<lparr>Success = True, Message = deleted_message (TempBranchName d branch),
                       WorktreePath = '''', TempBranch = TempBranchName d branch\<rparr>, s4))
      | (Inr (Some wt), s3) \<Rightarrow>
     (case HasUncommittedChanges git (Path wt) s3 of
        (dirty, s4) \<Rightarrow>
     if dirty \<and> \<not> Force opts then (Inl (UncommittedChanges (Path wt)), s4)
     else if DryRun opts then
       (Inr \<lparr>Success = True, Message = ''dry-run'',
             WorktreePath = Path wt, TempBranch = TempBranchName d branch\<rparr>, s4)
     else
     (case Checkout git (Path wt) branch s4 of
        (Some e, s5) \<Rightarrow> (Inl e, s5)
      | (None, s5) \<Rightarrow>
     (case DeleteBranch git (TempBranchName d branch) s5 of
        (Some e, s6) \<Rightarrow> (Inl e, s6)
      | (None, s6) \<Rightarrow>
          (Inr \<lparr>Success = True, Message = restored_message branch,
                WorktreePath = Path wt, TempBranch = TempBranchName d branch\<rparr>, s6)))))))"

text \<open>
  The commands that change branch state: creating a branch, checking a branch out in a
  worktree, deleting a branch.
\<close>

definition mutating :: "string list \<Rightarrow> bool" where
  "mutating argv =
     (case argv of
        [a, b, c] \<Rightarrow> a = ''branch'' \<and> b = ''-D''
      | [a, p, c, b] \<Rightarrow> a = ''-C'' \<and> (c = ''branch'' \<or> c = ''checkout'')
      | _ \<Rightarrow> False)"

section \<open>Runners\<close>

subsection \<open>A scripted runner\<close>

text \<open>
  The simplest world is a script: the list of answers that the external program will
  give, whatever it is asked. Each call takes the next answer; a call after the last
  answer fails.
\<close>

fun scripted :: "(string \<times> exec_error option) list exec" where
  "scripted argv [] = (('''', Some (ExecError ''no answer left'')), [])"
| "scripted argv (r # rs) = (r, rs)"

subsection \<open>A model of the repository\<close>

text \<open>
  The second world is a model of a repository with worktrees, as far as the commands
  that the engine issues can see and change it. A worktree has its path, the commit its
  HEAD is at, the branch it has checked out (empty for a detached HEAD) and the text that
  \<open>git status --porcelain\<close> prints for it. The repository has the path of the worktree
  the command runs from, its branches with the commit of each, its worktrees in the
  order of the listing, and the configured suffix if there is one.

  The commands behave as git documents them: \<open>rev-parse --verify\<close> fails on a ref that
  does not exist; \<open>branch\<close> creates a branch at the HEAD of the worktree and fails when
  the name is taken; \<open>checkout\<close> fails on a branch that does not exist or that another
  worktree has checked out (and here also, on the safe side, when the commit changes
  under uncommitted changes); \<open>branch -D\<close> fails on a branch that does not exist or that
  some worktree has checked out; every command with \<open>-C\<close> fails outside a worktree.
\<close>

record wt_state =
  wpath :: string
  whead :: string
  wbranch :: string
  wstatus :: string

record repo =
  cwd :: string
  branches :: "(string \<times> string) list"
  worktrees :: "wt_state list"
  config_suffix :: "string option"

definition git_fail :: "string \<Rightarrow> repo \<Rightarrow> (string \<times> exec_error option) \<times> repo" where
  "git_fail msg r = (('''', Some (ExecError msg)), r)"

definition render_worktree :: "wt_state \<Rightarrow> string" where
  "render_worktree w =
     ''worktree '' @ wpath w @ [NL] @ ''HEAD '' @ whead w @ [NL]
     @ (if wbranch w = '''' then ''detached'' else ''branch refs/heads/'' @ wbranch w) @ [NL]
     @ [NL]"

definition git_rev_parse_verify :: "string \<Rightarrow> repo \<Rightarrow> (string \<times> exec_error option) \<times> repo" where
  "git_rev_parse_verify ref r =
     (if HasPrefix ref ''refs/heads/'' then
        (case map_of (branches r) (TrimPrefix ref ''refs/heads/'') of
           Some c \<Rightarrow> ((c @ [NL], None), r)
         | None \<Rightarrow> git_fail ''fatal: Needed a single revision'' r)
      else git_fail ''fatal: Needed a single revision'' r)"

definition git_show_toplevel :: "repo \<Rightarrow> (string \<times> exec_error option) \<times> repo" where
  "git_show_toplevel r = ((cwd r @ [NL], None), r)"

definition git_worktree_list :: "repo \<Rightarrow> (string \<times> exec_error option) \<times> repo" where
  "git_worktree_list r = ((concat (map render_worktree (worktrees r)), None), r)"

definition git_config_get :: "repo \<Rightarrow> (string \<times> exec_error option) \<times> repo" where
  "git_config_get r =
     (case config_suffix r of
        Some v \<Rightarrow> ((v @ [NL], None), r)
      | None \<Rightarrow> git_fail ''exit status 1'' r)"

definition git_status :: "string \<Rightarrow> repo \<Rightarrow> (string \<times> exec_error option) \<times> repo" where
  "git_status p r =
     (case find (\<lambda>w. wpath w = p) (worktrees r) of
        None \<Rightarrow> git_fail ''fatal: cannot change to directory'' r
      | Some w \<Rightarrow> ((wstatus w, None), r))"

definition git_branch_create :: "string \<Rightarrow> string \<Rightarrow> repo \<Rightarrow> (string \<times> exec_error option) \<times> repo" where
  "git_branch_create p b r =
     (case find (\<lambda>w. wpath w = p) (worktrees r) of
        None \<Rightarrow> git_fail ''fatal: cannot change to directory'' r
      | Some w \<Rightarrow>
          if map_of (branches r) b \<noteq> None then git_fail ''fatal: a branch of that name already exists'' r
          else (('''', None), r\<lparr>branches := branches r @ [(b, whead w)]\<rparr>))"

definition git_checkout :: "string \<Rightarrow> string \<Rightarrow> repo \<Rightarrow> (string \<times> exec_error option) \<times> repo" where
  "git_checkout p b r =
     (case find (\<lambda>w. wpath w = p) (worktrees r) of
        None \<Rightarrow> git_fail ''fatal: cannot change to directory'' r
      | Some w \<Rightarrow>
          (case map_of (branches r) b of
             None \<Rightarrow> git_fail ''error: pathspec did not match'' r
           | Some c \<Rightarrow>
               if list_ex (\<lambda>w'. wpath w' \<noteq> p \<and> wbranch w' = b) (worktrees r)
               then git_fail ''fatal: branch is already checked out in another worktree'' r
               else if c \<noteq> whead w \<and> TrimSpace (wstatus w) \<noteq> ''''
               then git_fail ''error: local changes would be overwritten by checkout'' r
               else (('''', None),
                     r\<lparr>worktrees :=
                         map (\<lambda>w'. if wpath w' = p then w'\<lparr>whead := c, wbranch := b\<rparr> else w')
                           (worktrees r)\<rparr>)))"

definition git_branch_delete :: "string \<Rightarrow> repo \<Rightarrow> (string \<times> exec_error option) \<times> repo" where
  "git_branch_delete b r =
     (if map_of (branches r) b = None then git_fail ''error: branch not found'' r
      else if list_ex (\<lambda>w. wbranch w = b) (worktrees r)
      then git_fail ''error: cannot delete branch checked out in a worktree'' r
      else ((''Deleted branch '' @ b @ [NL], None),
            r\<lparr>branches := filter (\<lambda>nc. fst nc \<noteq> b) (branches r)\<rparr>))"

definition git_model :: "repo exec" where
  "git_model argv r =
     (case argv of
        [a, b] \<Rightarrow>
          if a = ''rev-parse'' \<and> b = ''--show-toplevel'' then git_show_toplevel r
          else git_fail ''unsupported command'' r
      | [a, b, c] \<Rightarrow>
          if a = ''rev-parse'' \<and> b = ''--verify'' then git_rev_parse_verify c r
          else if a = ''worktree'' \<and> b = ''list'' \<and> c = ''--porcelain'' then git_worktree_list r
          else if a = ''config'' \<and> b = ''--get'' \<and> c = ''wt-detach.suffix'' then git_config_get r
          else if a = ''branch'' \<and> b = ''-D'' then git_branch_delete c r
          else git_fail ''unsupported command'' r
      | [a, p, b, c] \<Rightarrow>
          if a = ''-C'' \<and> b = ''status'' \<and> c = ''--porcelain'' then git_status p r
          else if a = ''-C'' \<and> b = ''branch'' then git_branch_create p c r
          else if a = ''-C'' \<and> b = ''checkout'' then git_checkout p c r
          else git_fail ''unsupported command'' r
      | _ \<Rightarrow> git_fail ''unsupported command'' r)"

text \<open>
  The repositories the round trip is stated for. Paths are distinct; branch names are
  not empty and each branch is listed once; a branch that is checked out exists, is
  checked out in one worktree only, and the HEAD of that worktree is at its commit; the
  lines of the listing are acceptable to the scanner and the branch line does not end in
  white space, so that the listing reads back as it was written; trimming the output of
  \<open>rev-parse --show-toplevel\<close> gives the current path. Names are not checked against
  git's rules for ref names: creating a branch succeeds whenever the name is free.
\<close>

definition no_trailing_space :: "string \<Rightarrow> bool" where
  "no_trailing_space l = (find (\<lambda>e. suffix e l) space_encodings = None)"

definition branch_line_ok :: "string \<Rightarrow> bool" where
  "branch_line_ok b =
     (line_ok (''branch refs/heads/'' @ b) \<and> no_trailing_space (''branch refs/heads/'' @ b))"

definition wf_entry :: "wt_state \<Rightarrow> bool" where
  "wf_entry w =
     (line_ok (''worktree '' @ wpath w) \<and> line_ok (''HEAD '' @ whead w) \<and>
      branch_line_ok (wbranch w))"

definition wf_repo :: "repo \<Rightarrow> bool" where
  "wf_repo r =
     (distinct (map wpath (worktrees r)) \<and>
      distinct (filter (\<lambda>b. b \<noteq> []) (map wbranch (worktrees r))) \<and>
      distinct (map fst (branches r)) \<and>
      [] \<notin> set (map fst (branches r)) \<and>
      (\<forall>w \<in> set (worktrees r).
         wf_entry w \<and>
         (wbranch w \<noteq> [] \<longrightarrow> map_of (branches r) (wbranch w) = Some (whead w))) \<and>
      TrimSpace (cwd r @ [NL]) = cwd r)"

definition wt_record :: "wt_state \<Rightarrow> Worktree" where
  "wt_record w = \<lparr>Path = wpath w, Branch = wbranch w\<rparr>"

definition wt_block :: "wt_state \<Rightarrow> block" where
  "wt_block w =
     (wpath w,
      [''HEAD '' @ whead w,
       if wbranch w = [] then ''detached'' else ''branch refs/heads/'' @ wbranch w])"

section \<open>Commands issued and reachable configurations\<close>

text \<open>The commands issued between two sessions of one run.\<close>

definition issued_by :: "'w session \<Rightarrow> 'w session \<Rightarrow> string list list" where
  "issued_by s s' = drop (length (issued s)) (issued s')"

abbreviation (input) c_verify :: "string \<Rightarrow> string list" where
  "c_verify b \<equiv> [''rev-parse'', ''--verify'', ''refs/heads/'' @ b]"
abbreviation (input) c_toplevel :: "string list" where
  "c_toplevel \<equiv> [''rev-parse'', ''--show-toplevel'']"
abbreviation (input) c_list :: "string list" where
  "c_list \<equiv> [''worktree'', ''list'', ''--porcelain'']"
abbreviation (input) c_status :: "string \<Rightarrow> string list" where
  "c_status p \<equiv> [''-C'', p, ''status'', ''--porcelain'']"
abbreviation (input) c_create :: "string \<Rightarrow> string \<Rightarrow> string list" where
  "c_create p b \<equiv> [''-C'', p, ''branch'', b]"
abbreviation (input) c_checkout :: "string \<Rightarrow> string \<Rightarrow> string list" where
  "c_checkout p b \<equiv> [''-C'', p, ''checkout'', b]"
abbreviation (input) c_delete :: "string \<Rightarrow> string list" where
  "c_delete b \<equiv> [''branch'', ''-D'', b]"

text \<open>
  The detachers a program can reach: \<open>NewDetacher\<close>, then any sequence of \<open>SetSuffix\<close> and
  \<open>LoadSuffixFromConfig\<close>.
\<close>

inductive configured :: "'w exec \<Rightarrow> Detacher \<Rightarrow> bool" for git :: "'w exec" where
  new: "configured git NewDetacher"
| set: "configured git d \<Longrightarrow> configured git (SetSuffix d sfx)"
| load: "configured git d \<Longrightarrow> configured git (fst (LoadSuffixFromConfig git d s))"

code_pred configured .

section \<open>States used in the proofs and examples\<close>

text \<open>
  \<open>on_branch p c b\<close> is what a successful checkout of branch \<open>b\<close> (at commit \<open>c\<close>) in the
  worktree at \<open>p\<close> does to an entry of the worktree list; \<open>detached_repo r w t\<close> is the
  repository \<open>r\<close> after the temp branch \<open>t\<close> was created at the HEAD of worktree \<open>w\<close> and
  checked out there.
\<close>

definition on_branch :: "string \<Rightarrow> string \<Rightarrow> string \<Rightarrow> wt_state \<Rightarrow> wt_state" where
  "on_branch p c b x = (if wpath x = p then x\<lparr>whead := c, wbranch := b\<rparr> else x)"

definition detached_repo :: "repo \<Rightarrow> wt_state \<Rightarrow> string \<Rightarrow> repo" where
  "detached_repo r w t =
     r\<lparr>branches := branches r @ [(t, whead w)],
       worktrees := map (on_branch (wpath w) (whead w) t) (worktrees r)\<rparr>"

text \<open>
  Example repositories. \<open>repo_two\<close>: the main worktree \<open>/repo\<close> on \<open>main\<close>, from which the
  command runs, and a linked worktree \<open>/wt\<close> on \<open>feature-x\<close>. \<open>repo_inside\<close>: the same
  repository after a detach of \<open>feature-x\<close>, with the command now run from inside \<open>/wt\<close>.
  \<open>repo_detached\<close>: the same repository after that detach, with the command run from
  \<open>/repo\<close>. \<open>repo_orphan\<close>: a temp branch left over that no worktree has checked out.
  \<open>repo_dirty\<close>: the linked worktree has eleven untracked files.
\<close>

definition repo_two :: repo where
  "repo_two =
     \<lparr>cwd = ''/repo'',
      branches = [(''main'', ''c0''), (''feature-x'', ''c1'')],
      worktrees =
        [\<lparr>wpath = ''/repo'', whead = ''c0'', wbranch = ''main'', wstatus = []\<rparr>,
         \<lparr>wpath = ''/wt'', whead = ''c1'', wbranch = ''feature-x'', wstatus = []\<rparr>],
      config_suffix = None\<rparr>"

definition repo_inside :: repo where
  "repo_inside =
     \<lparr>cwd = ''/wt'',
      branches = [(''main'', ''c0''), (''feature-x'', ''c1''), (''feature-x__wt_detach'', ''c1'')],
      worktrees =
        [\<lparr>wpath = ''/repo'', whead = ''c0'', wbranch = ''main'', wstatus = []\<rparr>,
         \<lparr>wpath = ''/wt'', whead = ''c1'', wbranch = ''feature-x__wt_detach'', wstatus = []\<rparr>],
      config_suffix = None\<rparr>"

definition repo_detached :: repo where
  "repo_detached =
     \<lparr>cwd = ''/repo'',
      branches = [(''main'', ''c0''), (''feature-x'', ''c1''), (''feature-x__wt_detach'', ''c1'')],
      worktrees =
        [\<lparr>wpath = ''/repo'', whead = ''c0'', wbranch = ''main'', wstatus = []\<rparr>,
         \<lparr>wpath = ''/wt'', whead = ''c1'', wbranch = ''feature-x__wt_detach'', wstatus = []\<rparr>],
      config_suffix = None\<rparr>"

definition default_opts :: Options where
  "default_opts = \<lparr>DryRun = False, Revert_opt = False, Force = False, Yes = True\<rparr>"

definition dry_opts :: Options where
  "dry_opts = \<lparr>DryRun = True, Revert_opt = False, Force = False, Yes = True\<rparr>"

definition repo_orphan :: repo where
  "repo_orphan =
     \<lparr>cwd = ''/repo'',
      branches = [(''main'', ''c0''), (''feature-o'', ''c1''), (''feature-o__wt_detach'', ''c1'')],
      worktrees = [\<lparr>wpath = ''/repo'', whead = ''c0'', wbranch = ''main'', wstatus = []\<rparr>],
      config_suffix = None\<rparr>"

definition many_files_status :: string where
  "many_files_status =
     concat (map (\<lambda>n. ''?? file'' @ n @ ''.txt'' @ [NL])
       [''a'', ''b'', ''c'', ''d'', ''e'', ''f'', ''g'', ''h'', ''i'', ''j'', ''k''])"

definition repo_dirty :: repo where
  "repo_dirty =
     \<lparr>cwd = ''/repo'',
      branches = [(''main'', ''c0''), (''feature-y'', ''c1'')],
      worktrees =
        [\<lparr>wpath = ''/repo'', whead = ''c0'', wbranch = ''main'', wstatus = []\<rparr>,
         \<lparr>wpath = ''/wt'', whead = ''c1'', wbranch = ''feature-y'', wstatus = many_files_status\<rparr>],
      config_suffix = None\<rparr>"

definition rollback_script :: "(string \<times> exec_error option) list" where
  "rollback_script =
     [(''c1'' @ [NL], None),
      (''/repo'' @ [NL], None),
      (concat (map render_worktree (worktrees repo_two)), None),
      ([], None),
      ([], Some (ExecError ''exit status 128'')),
      ([], None),
      ([], Some (ExecError ''exit status 1'')),
      ([], Some (ExecError ''exit status 1''))]"

section \<open>Properties of the parser\<close>

lemma scan_lines_Nil [simp]: "scan_lines [] = []"
  by (simp add: scan_lines.simps)

lemma takeWhile_line: "NL \<notin> set l \<Longrightarrow> takeWhile (\<lambda>c. c \<noteq> NL) (l @ NL # rest) = l"
  by (induction l) auto

lemma takeWhile_noNL: "NL \<notin> set l \<Longrightarrow> takeWhile (\<lambda>c. c \<noteq> NL) l = l"
  by (induction l) auto

lemma scan_lines_line:
  assumes "NL \<notin> set l" "length l < MaxScanTokenSize"
  shows "scan_lines (l @ NL # rest) = dropCR l # scan_lines rest"
  using assms by (subst scan_lines.simps) (simp add: takeWhile_line)

lemma scan_lines_last:
  assumes "NL \<notin> set l" "length l < MaxScanTokenSize" "l \<noteq> []"
  shows "scan_lines l = [dropCR l]"
  using assms by (subst scan_lines.simps) (simp add: takeWhile_noNL)

lemma scan_lines_too_long:
  assumes "NL \<notin> set l" "MaxScanTokenSize \<le> length l"
  shows "scan_lines (l @ NL # rest) = []" "scan_lines l = []"
  using assms by (subst scan_lines.simps, simp add: takeWhile_line takeWhile_noNL)+

lemma split_at_NL:
  "NL \<in> set t \<Longrightarrow> \<exists>l rest. t = l @ NL # rest \<and> NL \<notin> set l"
  by (metis split_list_first)

lemma scan_lines_snoc_NL:
  "scan_lines (t @ [NL]) = scan_lines t \<or> scan_lines (t @ [NL]) = scan_lines t @ ['''']"
proof (induction t rule: length_induct)
  case (1 t)
  show ?case
  proof (cases "NL \<in> set t")
    case True
    then obtain l rest where t: "t = l @ NL # rest" and l: "NL \<notin> set l"
      using split_at_NL by blast
    show ?thesis
    proof (cases "length l < MaxScanTokenSize")
      case True
      have "length rest < length t" using t by simp
      with 1 have "scan_lines (rest @ [NL]) = scan_lines rest \<or> scan_lines (rest @ [NL]) = scan_lines rest @ ['''']"
        by blast
      moreover have "scan_lines (t @ [NL]) = dropCR l # scan_lines (rest @ [NL])"
        using scan_lines_line [OF l True, of "rest @ [NL]"] t by simp
      moreover have "scan_lines t = dropCR l # scan_lines rest"
        using scan_lines_line [OF l True] t by simp
      ultimately show ?thesis by auto
    next
      case False
      then have "scan_lines (t @ [NL]) = []" "scan_lines t = []"
        using scan_lines_too_long(1) [OF l, of "rest @ [NL]"] scan_lines_too_long(1) [OF l, of rest] t by auto
      then show ?thesis by simp
    qed
  next
    case False
    show ?thesis
    proof (cases "t = []")
      case True
      have "scan_lines ([] @ NL # []) = dropCR [] # scan_lines []"
        by (rule scan_lines_line) (simp_all add: MaxScanTokenSize_def)
      then show ?thesis using True by (simp add: dropCR_def)
    next
      case ne: False
      show ?thesis
      proof (cases "length t < MaxScanTokenSize")
        case True
        have "scan_lines (t @ NL # []) = dropCR t # scan_lines []"
          using scan_lines_line [OF False True] by simp
        then show ?thesis using scan_lines_last [OF False True ne] by simp
      next
        case long: False
        then have "MaxScanTokenSize \<le> length t" by simp
        then show ?thesis
          using scan_lines_too_long(1) [OF False, of "[]"] scan_lines_too_long(2) [OF False] by simp
      qed
    qed
  qed
qed

lemma parse_lines_snoc_blank: "parse_lines (ls @ ['''']) = parse_lines ls"
proof -
  obtain ws cur where st: "foldl parse_step ([], None) ls = (ws, cur)"
    by (cases "foldl parse_step ([], None) ls")
  show ?thesis
    by (cases cur) (simp_all add: parse_lines_def st HasPrefix_def)
qed

lemma ParseWorktreeList_snoc_NL: "ParseWorktreeList (t @ [NL]) = ParseWorktreeList t"
  using scan_lines_snoc_NL [of t] by (auto simp: ParseWorktreeList_def parse_lines_snoc_blank)

lemma ParseWorktreeList_single_example: "ParseWorktreeList (''worktree /r'' @ [NL] @ ''HEAD x'' @ [NL] @ ''branch refs/heads/main'' @ [NL] @ [NL]) = [\<lparr>Path = ''/r'', Branch = ''main''\<rparr>]"
  by (simp add: ParseWorktreeList_def parse_lines_def scan_lines.simps MaxScanTokenSize_def dropCR_def HasPrefix_def TrimPrefix_def)

lemma ParseWorktreeList_two_worktree_lines_example: "ParseWorktreeList (''worktree /a'' @ [NL] @ ''worktree /b'') = [\<lparr>Path = ''/b'', Branch = ''''\<rparr>]"
  by (simp add: ParseWorktreeList_def parse_lines_def scan_lines.simps MaxScanTokenSize_def dropCR_def HasPrefix_def TrimPrefix_def)

lemma ParseWorktreeList_empty: "ParseWorktreeList [] = []"
  by (simp add: ParseWorktreeList_def parse_lines_def)
lemma dropCR_line_ok: "line_ok l \<Longrightarrow> dropCR l = l"
  by (auto simp: line_ok_def dropCR_def)

lemma scan_lines_ok_line:
  "line_ok l \<Longrightarrow> scan_lines (l @ NL # rest) = l # scan_lines rest"
  using scan_lines_line [of l rest] by (simp add: dropCR_line_ok) (simp add: line_ok_def)

lemma scan_lines_attrs:
  "\<forall>a \<in> set attrs. line_ok a \<Longrightarrow>
   scan_lines (concat (map (\<lambda>a. a @ [NL]) attrs) @ rest) = attrs @ scan_lines rest"
  by (induction attrs) (simp_all add: scan_lines_ok_line)

lemma line_ok_Nil: "line_ok []"
  by (simp add: line_ok_def MaxScanTokenSize_def)

lemma scan_lines_block:
  assumes "wf_block b"
  shows "scan_lines (render_block b @ rest) = block_lines b @ scan_lines rest"
proof -
  have w: "line_ok (''worktree '' @ fst b)" and a: "\<forall>a \<in> set (snd b). line_ok a"
    using assms by (auto simp: wf_block_def)
  have "render_block b @ rest =
        (''worktree '' @ fst b) @ NL # (concat (map (\<lambda>a. a @ [NL]) (snd b)) @ ([] @ NL # rest))"
    by (simp add: render_block_def)
  then show ?thesis
    by (simp only: scan_lines_ok_line [OF w] scan_lines_attrs [OF a] scan_lines_ok_line [OF line_ok_Nil])
       (simp add: block_lines_def)
qed

lemma scan_lines_blocks:
  "\<forall>b \<in> set bs. wf_block b \<Longrightarrow>
   scan_lines (render_blocks bs) = concat (map block_lines bs)"
  by (induction bs) (simp_all add: render_blocks_def scan_lines_block)

lemma parse_step_worktree:
  "parse_step (ws, cur) (''worktree '' @ p) = (ws, Some \<lparr>Path = p, Branch = ''''\<rparr>)"
  by (simp add: HasPrefix_def TrimPrefix_def)

lemma parse_step_blank:
  "parse_step (ws, cur) [] = (case cur of None \<Rightarrow> (ws, None) | Some c \<Rightarrow> (ws @ [c], None))"
  by (simp add: HasPrefix_def)

lemma parse_step_attr:
  assumes "a \<noteq> []" "\<not> HasPrefix a ''worktree ''"
  shows "parse_step (ws, Some c) a =
    (ws, Some (if HasPrefix a ''branch refs/heads/''
               then c\<lparr>Branch := TrimPrefix a ''branch refs/heads/''\<rparr> else c))"
  using assms by simp

lemma foldl_attrs:
  assumes "\<forall>a \<in> set attrs. a \<noteq> [] \<and> \<not> HasPrefix a ''worktree ''"
  shows "foldl parse_step (ws, Some c) attrs =
    (ws, Some (if filter (\<lambda>a. HasPrefix a ''branch refs/heads/'') attrs = [] then c
               else c\<lparr>Branch := block_branch attrs\<rparr>))"
  using assms
proof (induction attrs rule: rev_induct)
  case Nil
  then show ?case by simp
next
  case (snoc a attrs)
  then have a: "a \<noteq> []" "\<not> HasPrefix a ''worktree ''" by auto
  from snoc have ih: "foldl parse_step (ws, Some c) attrs =
    (ws, Some (if filter (\<lambda>a. HasPrefix a ''branch refs/heads/'') attrs = [] then c
               else c\<lparr>Branch := block_branch attrs\<rparr>))" by simp
  show ?case
    by (simp only: foldl_append foldl.simps ih parse_step_attr [OF a])
       (simp add: block_branch_def)
qed

lemma foldl_block:
  assumes "wf_block b"
  shows "foldl parse_step (ws, cur) (block_lines b) = (ws @ [block_record b], None)"
proof -
  have a: "\<forall>a \<in> set (snd b). a \<noteq> [] \<and> \<not> HasPrefix a ''worktree ''"
    using assms by (auto simp: wf_block_def)
  show ?thesis
    by (simp only: block_lines_def foldl_Cons foldl_append parse_step_worktree foldl_attrs [OF a]
                   foldl.simps parse_step_blank)
       (simp add: block_record_def block_branch_def)
qed

lemma foldl_blocks:
  "\<forall>b \<in> set bs. wf_block b \<Longrightarrow> bs \<noteq> [] \<or> cur = None \<Longrightarrow>
   foldl parse_step (ws, cur) (concat (map block_lines bs)) = (ws @ map block_record bs, None)"
proof (induction bs arbitrary: ws cur)
  case Nil
  then show ?case by simp
next
  case (Cons b bs)
  then show ?case by (simp add: foldl_block)
qed

lemma ParseWorktreeList_blocks:
  "\<forall>b \<in> set bs. wf_block b \<Longrightarrow> ParseWorktreeList (render_blocks bs) = map block_record bs"
  by (simp add: ParseWorktreeList_def parse_lines_def scan_lines_blocks foldl_blocks)

lemma parse_step_fst:
  "fst (parse_step (ws, cur) line) =
     (if line = [] then (case cur of None \<Rightarrow> ws | Some c \<Rightarrow> ws @ [c]) else ws)"
  by (auto simp: HasPrefix_def split: option.splits)

lemma foldl_no_blank:
  "[] \<notin> set mid \<Longrightarrow> fst (foldl parse_step (ws, cur) mid) = ws"
proof (induction mid arbitrary: cur)
  case Nil
  then show ?case by simp
next
  case (Cons l mid)
  obtain cur' where "parse_step (ws, cur) l = (ws, cur')"
    using parse_step_fst [of ws cur l] Cons.prems by (cases "parse_step (ws, cur) l") auto
  with Cons show ?case by simp
qed

lemma parse_step_worktree_line:
  "HasPrefix l ''worktree '' \<Longrightarrow>
   parse_step (ws, cur) l = (ws, Some \<lparr>Path = TrimPrefix l ''worktree '', Branch = ''''\<rparr>)"
  by simp

lemma foldl_acc:
  "foldl parse_step (ws, cur) ls =
     (ws @ fst (foldl parse_step ([], cur) ls), snd (foldl parse_step ([], cur) ls))"
proof (induction ls rule: rev_induct)
  case Nil
  then show ?case by simp
next
  case (snoc l ls)
  obtain a c where ac: "foldl parse_step ([], cur) ls = (a, c)"
    by (cases "foldl parse_step ([], cur) ls")
  show ?case
    by (simp add: snoc ac split: option.splits)
qed

lemma worktree_line_replaces:
  assumes "HasPrefix l1 ''worktree ''" "HasPrefix l2 ''worktree ''" "[] \<notin> set mid"
  shows "parse_lines (pre @ [l1] @ mid @ [l2] @ post) =
         fst (foldl parse_step ([], None) pre) @ parse_lines (l2 # post)"
proof -
  obtain a c where pre: "foldl parse_step ([], None) pre = (a, c)"
    by (cases "foldl parse_step ([], None) pre")
  obtain c' where mid: "foldl parse_step (a, Some \<lparr>Path = TrimPrefix l1 ''worktree '', Branch = ''''\<rparr>) mid = (a, c')"
    using foldl_no_blank [OF assms(3), of a] by (metis prod.collapse)
  have "foldl parse_step ([], None) (pre @ [l1] @ mid @ [l2] @ post) =
        foldl parse_step (a, Some \<lparr>Path = TrimPrefix l2 ''worktree '', Branch = ''''\<rparr>) post"
    by (simp only: foldl_append foldl.simps pre parse_step_worktree_line [OF assms(1)] mid
          parse_step_worktree_line [OF assms(2)])
  also have "\<dots> = (a @ fst (foldl parse_step ([], Some \<lparr>Path = TrimPrefix l2 ''worktree '', Branch = ''''\<rparr>) post),
                    snd (foldl parse_step ([], Some \<lparr>Path = TrimPrefix l2 ''worktree '', Branch = ''''\<rparr>) post))"
    by (rule foldl_acc)
  finally have "parse_lines (pre @ [l1] @ mid @ [l2] @ post) =
     a @ parse_finish (foldl parse_step ([], Some \<lparr>Path = TrimPrefix l2 ''worktree '', Branch = ''''\<rparr>) post)"
    by (cases "foldl parse_step ([], Some \<lparr>Path = TrimPrefix l2 ''worktree '', Branch = ''''\<rparr>) post"
         rule: parse_finish.cases)
       (simp_all add: parse_lines_def)
  then show ?thesis
    by (simp only: parse_lines_def foldl_Cons parse_step_worktree_line [OF assms(2)] pre fst_conv)
qed

lemma FindWorktreeByBranch_find:
  "FindWorktreeByBranch wts b p = find (\<lambda>wt. Branch wt = b \<and> Path wt \<noteq> p) wts"
  by (induction wts) auto

lemma FindWorktreeByBranch_Some_iff:
  "FindWorktreeByBranch wts b p = Some wt \<longleftrightarrow>
     (\<exists>pre post. wts = pre @ wt # post \<and> Branch wt = b \<and> Path wt \<noteq> p \<and>
        (\<forall>x \<in> set pre. \<not> (Branch x = b \<and> Path x \<noteq> p)))"
proof (induction wts)
  case Nil
  then show ?case by simp
next
  case (Cons w wts)
  show ?case
  proof (cases "Branch w = b \<and> Path w \<noteq> p")
    case True
    have "(\<exists>pre post. w # wts = pre @ wt # post \<and> Branch wt = b \<and> Path wt \<noteq> p \<and>
            (\<forall>x \<in> set pre. \<not> (Branch x = b \<and> Path x \<noteq> p))) \<longleftrightarrow> wt = w"
    proof
      assume "\<exists>pre post. w # wts = pre @ wt # post \<and> Branch wt = b \<and> Path wt \<noteq> p \<and>
            (\<forall>x \<in> set pre. \<not> (Branch x = b \<and> Path x \<noteq> p))"
      then obtain pre post where e: "w # wts = pre @ wt # post"
        and n: "\<forall>x \<in> set pre. \<not> (Branch x = b \<and> Path x \<noteq> p)" by blast
      show "wt = w"
      proof (cases pre)
        case Nil
        with e show ?thesis by simp
      next
        case (Cons a list)
        with e have "w \<in> set pre" by simp
        with n True show ?thesis by blast
      qed
    next
      assume "wt = w"
      with True have "w # wts = [] @ wt # wts \<and> Branch wt = b \<and> Path wt \<noteq> p \<and>
            (\<forall>x \<in> set []. \<not> (Branch x = b \<and> Path x \<noteq> p))" by simp
      then show "\<exists>pre post. w # wts = pre @ wt # post \<and> Branch wt = b \<and> Path wt \<noteq> p \<and>
            (\<forall>x \<in> set pre. \<not> (Branch x = b \<and> Path x \<noteq> p))" by blast
    qed
    with True show ?thesis by auto
  next
    case False
    have "(\<exists>pre post. w # wts = pre @ wt # post \<and> Branch wt = b \<and> Path wt \<noteq> p \<and>
            (\<forall>x \<in> set pre. \<not> (Branch x = b \<and> Path x \<noteq> p))) \<longleftrightarrow>
          (\<exists>pre post. wts = pre @ wt # post \<and> Branch wt = b \<and> Path wt \<noteq> p \<and>
            (\<forall>x \<in> set pre. \<not> (Branch x = b \<and> Path x \<noteq> p)))" (is "?L \<longleftrightarrow> ?R")
    proof
      assume ?L
      then obtain pre post where e: "w # wts = pre @ wt # post"
        and m: "Branch wt = b \<and> Path wt \<noteq> p"
        and n: "\<forall>x \<in> set pre. \<not> (Branch x = b \<and> Path x \<noteq> p)" by blast
      from e m False obtain pre' where "pre = w # pre'"
        by (cases pre) auto
      with e n m have "wts = pre' @ wt # post \<and> Branch wt = b \<and> Path wt \<noteq> p \<and>
            (\<forall>x \<in> set pre'. \<not> (Branch x = b \<and> Path x \<noteq> p))" by simp
      then show ?R by blast
    next
      assume ?R
      then obtain pre post where e: "wts = pre @ wt # post"
        and m: "Branch wt = b \<and> Path wt \<noteq> p"
        and n: "\<forall>x \<in> set pre. \<not> (Branch x = b \<and> Path x \<noteq> p)" by blast
      with False have "w # wts = (w # pre) @ wt # post \<and> Branch wt = b \<and> Path wt \<noteq> p \<and>
            (\<forall>x \<in> set (w # pre). \<not> (Branch x = b \<and> Path x \<noteq> p))" by simp
      then show ?L by blast
    qed
    moreover have "FindWorktreeByBranch (w # wts) b p = FindWorktreeByBranch wts b p"
      using False by auto
    ultimately show ?thesis using Cons.IH by (simp only:)
  qed
qed

lemma FindWorktreeByBranch_None_iff:
  "FindWorktreeByBranch wts b p = None \<longleftrightarrow>
     (\<forall>x \<in> set wts. \<not> (Branch x = b \<and> Path x \<noteq> p))"
  by (induction wts) auto

text \<open>
  Claim C7. For every worktree list, branch name \<open>b\<close> and exclude path \<open>p\<close>,
  \<open>FindWorktreeByBranch\<close> returns the first record, in the order of the list, whose branch
  is \<open>b\<close> and whose path is not \<open>p\<close>, and nothing when there is no such record. It
  never returns a record whose path is \<open>p\<close>, also when that record is the only one with
  branch \<open>b\<close>.
\<close>

theorem FindWorktreeByBranch_first_match:
  "FindWorktreeByBranch wts b p = find (\<lambda>wt. Branch wt = b \<and> Path wt \<noteq> p) wts
   \<and> (\<forall>wt. FindWorktreeByBranch wts b p = Some wt \<longleftrightarrow>
        (\<exists>pre post. wts = pre @ wt # post \<and> Branch wt = b \<and> Path wt \<noteq> p \<and>
           (\<forall>x \<in> set pre. \<not> (Branch x = b \<and> Path x \<noteq> p))))
   \<and> (FindWorktreeByBranch wts b p = None \<longleftrightarrow>
        (\<forall>x \<in> set wts. \<not> (Branch x = b \<and> Path x \<noteq> p)))
   \<and> (\<forall>wt. FindWorktreeByBranch wts b p = Some wt \<longrightarrow> Path wt \<noteq> p)
   \<and> ((\<forall>x \<in> set wts. Branch x = b \<longrightarrow> Path x = p) \<longrightarrow> FindWorktreeByBranch wts b p = None)"
proof -
  have 1: "FindWorktreeByBranch wts b p = find (\<lambda>wt. Branch wt = b \<and> Path wt \<noteq> p) wts"
    by (rule FindWorktreeByBranch_find)
  have 4: "\<forall>wt. FindWorktreeByBranch wts b p = Some wt \<longrightarrow> Path wt \<noteq> p"
    using FindWorktreeByBranch_Some_iff [of wts b p] by blast
  have 5: "(\<forall>x \<in> set wts. Branch x = b \<longrightarrow> Path x = p) \<longrightarrow> FindWorktreeByBranch wts b p = None"
    using FindWorktreeByBranch_None_iff [of wts b p] by blast
  show ?thesis
    using 1 4 5 FindWorktreeByBranch_Some_iff [of wts b p] FindWorktreeByBranch_None_iff [of wts b p]
    by blast
qed

theorem FindWorktreeByBranch_first_match_witness:
  "FindWorktreeByBranch
     [\<lparr>Path = ''/a'', Branch = ''x''\<rparr>, \<lparr>Path = ''/p'', Branch = ''b''\<rparr>,
      \<lparr>Path = ''/c'', Branch = ''b''\<rparr>, \<lparr>Path = ''/d'', Branch = ''b''\<rparr>] ''b'' ''/p''
     = Some \<lparr>Path = ''/c'', Branch = ''b''\<rparr>
   \<and> FindWorktreeByBranch [\<lparr>Path = ''/p'', Branch = ''b''\<rparr>, \<lparr>Path = ''/q'', Branch = ''y''\<rparr>]
        ''b'' ''/p'' = None"
  using FindWorktreeByBranch_first_match
          [of "[\<lparr>Path = ''/a'', Branch = ''x''\<rparr>, \<lparr>Path = ''/p'', Branch = ''b''\<rparr>,
                \<lparr>Path = ''/c'', Branch = ''b''\<rparr>, \<lparr>Path = ''/d'', Branch = ''b''\<rparr>]" "''b''" "''/p''"]
        FindWorktreeByBranch_first_match
          [of "[\<lparr>Path = ''/p'', Branch = ''b''\<rparr>, \<lparr>Path = ''/q'', Branch = ''y''\<rparr>]" "''b''" "''/p''"]
  by simp

lemma render_blocks_butlast:
  "bs \<noteq> [] \<Longrightarrow> render_blocks bs = butlast (render_blocks bs) @ [NL]"
proof (induction bs rule: rev_induct)
  case Nil
  then show ?case by simp
next
  case (snoc b bs)
  have "render_blocks (bs @ [b]) = (render_blocks bs @ ''worktree '' @ fst b @ [NL] @ concat (map (\<lambda>a. a @ [NL]) (snd b))) @ [NL]"
    by (simp add: render_blocks_def render_block_def)
  then show ?case by (simp only: butlast_snoc)
qed

text \<open>
  Claim C4. \<open>ParseWorktreeList\<close> is a total function of its input. A well-formed listing
  of N blocks parses to the N records of its blocks, in order; a block without a
  \<open>branch refs/heads/\<close> line gives a record with the empty branch; the empty input gives
  the empty list; the result is the same without the closing blank line, and a newline
  added at the end of any input never changes the result; the listing of one worktree
  \<open>/r\<close> on branch \<open>main\<close> parses to that one record.
\<close>

theorem ParseWorktreeList_well_formed:
  assumes "\<forall>b \<in> set bs. wf_block b"
  shows "ParseWorktreeList (render_blocks bs) = map block_record bs
    \<and> length (ParseWorktreeList (render_blocks bs)) = length bs
    \<and> (\<forall>i < length bs. (\<forall>a \<in> set (snd (bs ! i)). \<not> HasPrefix a ''branch refs/heads/'') \<longrightarrow>
         Branch (ParseWorktreeList (render_blocks bs) ! i) = '''')
    \<and> ParseWorktreeList '''' = []
    \<and> ParseWorktreeList (butlast (render_blocks bs)) = ParseWorktreeList (render_blocks bs)
    \<and> (\<forall>t. ParseWorktreeList (t @ [NL]) = ParseWorktreeList t)
    \<and> ParseWorktreeList (''worktree /r'' @ [NL] @ ''HEAD x'' @ [NL] @ ''branch refs/heads/main'' @ [NL] @ [NL])
        = [\<lparr>Path = ''/r'', Branch = ''main''\<rparr>]"
proof -
  have 1: "ParseWorktreeList (render_blocks bs) = map block_record bs"
    using assms by (rule ParseWorktreeList_blocks)
  have 3: "\<forall>i < length bs. (\<forall>a \<in> set (snd (bs ! i)). \<not> HasPrefix a ''branch refs/heads/'') \<longrightarrow>
         Branch (ParseWorktreeList (render_blocks bs) ! i) = ''''"
  proof (intro allI impI)
    fix i assume i: "i < length bs" and n: "\<forall>a \<in> set (snd (bs ! i)). \<not> HasPrefix a ''branch refs/heads/''"
    from n have "filter (\<lambda>a. HasPrefix a ''branch refs/heads/'') (snd (bs ! i)) = []"
      by (simp add: filter_empty_conv)
    then show "Branch (ParseWorktreeList (render_blocks bs) ! i) = ''''"
      using i by (simp add: 1 block_record_def block_branch_def)
  qed
  have 5: "ParseWorktreeList (butlast (render_blocks bs)) = ParseWorktreeList (render_blocks bs)"
  proof (cases "bs = []")
    case True
    then show ?thesis by (simp add: render_blocks_def)
  next
    case False
    then show ?thesis
      using ParseWorktreeList_snoc_NL [of "butlast (render_blocks bs)"] render_blocks_butlast [of bs]
      by simp
  qed
  show ?thesis
    using 1 3 5 ParseWorktreeList_snoc_NL ParseWorktreeList_single_example ParseWorktreeList_empty by simp
qed

theorem ParseWorktreeList_well_formed_witness:
  "wf_block (''/r'', [''HEAD abc'', ''branch refs/heads/main''])
   \<and> wf_block (''/w'', [''HEAD def'', ''detached''])
   \<and> ParseWorktreeList (render_blocks
        [(''/r'', [''HEAD abc'', ''branch refs/heads/main'']), (''/w'', [''HEAD def'', ''detached''])])
     = [\<lparr>Path = ''/r'', Branch = ''main''\<rparr>, \<lparr>Path = ''/w'', Branch = ''''\<rparr>]"
proof -
  have h: "\<forall>b \<in> set [(''/r'', [''HEAD abc'', ''branch refs/heads/main'']), (''/w'', [''HEAD def'', ''detached''])].
      wf_block b"
    by (simp add: wf_block_def line_ok_def MaxScanTokenSize_def HasPrefix_def)
  show ?thesis
    using h ParseWorktreeList_well_formed [OF h]
    by (simp add: block_record_def block_branch_def HasPrefix_def TrimPrefix_def)
qed

text \<open>
  Claim C10. A \<open>worktree\<close> line met while a record is open replaces the open record and
  appends nothing; the list of finished records grows only at a blank line (and at the
  end of the input, in \<open>parse_finish\<close>). So when the scanner delivers two \<open>worktree\<close>
  lines with no blank line between them, the result consists of the records finished
  before the first of the two lines and of what the second line and the lines after it
  give: the record begun by the first line is dropped. The input with the lines
  \<open>worktree /a\<close> and \<open>worktree /b\<close> parses to the single record of \<open>/b\<close>.
\<close>

theorem ParseWorktreeList_worktree_replaces:
  "parse_step (ws, Some c) (''worktree '' @ p) = (ws, Some \<lparr>Path = p, Branch = ''''\<rparr>)
   \<and> fst (parse_step (ws, cur) line) =
       (if line = '''' then (case cur of None \<Rightarrow> ws | Some c \<Rightarrow> ws @ [c])
        else ws)
   \<and> (scan_lines inp = pre @ [la] @ mid @ [lb] @ post \<and>
      HasPrefix la ''worktree '' \<and> HasPrefix lb ''worktree '' \<and> '''' \<notin> set mid \<longrightarrow>
        ParseWorktreeList inp = fst (foldl parse_step ([], None) pre) @ parse_lines (lb # post))
   \<and> ParseWorktreeList (''worktree /a'' @ [NL] @ ''worktree /b'') = [\<lparr>Path = ''/b'', Branch = ''''\<rparr>]"
  using parse_step_worktree [of ws "Some c" p] parse_step_fst [of ws cur line]
    worktree_line_replaces [of la lb mid pre post] ParseWorktreeList_two_worktree_lines_example
  by (simp add: ParseWorktreeList_def)

theorem ParseWorktreeList_worktree_replaces_witness:
  "scan_lines (''worktree /x'' @ [NL] @ [NL] @ ''worktree /a'' @ [NL] @ ''HEAD 1'' @ [NL] @ ''worktree /b'' @ [NL] @ ''detached'')
     = [''worktree /x'', ''''] @ [''worktree /a''] @ [''HEAD 1''] @ [''worktree /b''] @ [''detached'']
   \<and> ParseWorktreeList (''worktree /x'' @ [NL] @ [NL] @ ''worktree /a'' @ [NL] @ ''HEAD 1'' @ [NL] @ ''worktree /b'' @ [NL] @ ''detached'')
     = [\<lparr>Path = ''/x'', Branch = ''''\<rparr>, \<lparr>Path = ''/b'', Branch = ''''\<rparr>]"
proof -
  have s: "scan_lines (''worktree /x'' @ [NL] @ [NL] @ ''worktree /a'' @ [NL] @ ''HEAD 1'' @ [NL] @ ''worktree /b'' @ [NL] @ ''detached'')
     = [''worktree /x'', ''''] @ [''worktree /a''] @ [''HEAD 1''] @ [''worktree /b''] @ [''detached'']"
    by (simp add: scan_lines.simps MaxScanTokenSize_def dropCR_def)
  show ?thesis
    using s ParseWorktreeList_worktree_replaces
      [where inp = "''worktree /x'' @ [NL] @ [NL] @ ''worktree /a'' @ [NL] @ ''HEAD 1'' @ [NL] @ ''worktree /b'' @ [NL] @ ''detached''"
         and pre = "[''worktree /x'', '''']" and la = "''worktree /a''" and mid = "[''HEAD 1'']"
         and lb = "''worktree /b''" and post = "[''detached'']"]
    by (simp add: HasPrefix_def TrimPrefix_def parse_lines_def)
qed

section \<open>Properties of the engine\<close>

lemma Run_issued: "Run git args s = (r, s') \<Longrightarrow> issued s' = issued s @ [args]"
  by (auto simp: Run_def split: prod.splits)

lemma RunInDir_issued:
  "RunInDir git dir args s = (r, s') \<Longrightarrow> issued s' = issued s @ [''-C'' # dir # args]"
  by (auto simp: RunInDir_def split: prod.splits)

lemma BranchExists_issued:
  "BranchExists git branch s = (r, s') \<Longrightarrow>
   issued s' = issued s @ [[''rev-parse'', ''--verify'', ''refs/heads/'' @ branch]]"
  by (auto simp: BranchExists_def split: prod.splits dest: Run_issued)

lemma GetCurrentWorktreePath_issued:
  "GetCurrentWorktreePath git s = (r, s') \<Longrightarrow>
   issued s' = issued s @ [[''rev-parse'', ''--show-toplevel'']]"
  by (auto simp: GetCurrentWorktreePath_def split: prod.splits option.splits dest: Run_issued)

lemma ListWorktrees_issued:
  "ListWorktrees git s = (r, s') \<Longrightarrow>
   issued s' = issued s @ [[''worktree'', ''list'', ''--porcelain'']]"
  by (auto simp: ListWorktrees_def split: prod.splits option.splits dest: Run_issued)

lemma FindWorktreeForBranch_issued:
  "FindWorktreeForBranch git branch s = (r, s') \<Longrightarrow>
   issued s' = issued s @ [[''rev-parse'', ''--show-toplevel'']] \<or>
   issued s' = issued s @ [[''rev-parse'', ''--show-toplevel''], [''worktree'', ''list'', ''--porcelain'']]"
  by (auto simp: FindWorktreeForBranch_def split: prod.splits sum.splits
           dest!: GetCurrentWorktreePath_issued ListWorktrees_issued)

lemma HasUncommittedChanges_issued:
  "HasUncommittedChanges git p s = (r, s') \<Longrightarrow>
   issued s' = issued s @ [[''-C'', p, ''status'', ''--porcelain'']]"
  by (auto simp: HasUncommittedChanges_def split: prod.splits dest: RunInDir_issued)

lemma CreateBranch_issued:
  "CreateBranch git branch p s = (r, s') \<Longrightarrow>
   issued s' = issued s @ [[''-C'', p, ''branch'', branch]]"
  by (auto simp: CreateBranch_def split: prod.splits option.splits dest: RunInDir_issued)

lemma DeleteBranch_issued:
  "DeleteBranch git branch s = (r, s') \<Longrightarrow>
   issued s' = issued s @ [[''branch'', ''-D'', branch]]"
  by (auto simp: DeleteBranch_def split: prod.splits option.splits dest: Run_issued)

lemma Checkout_issued:
  "Checkout git p branch s = (r, s') \<Longrightarrow>
   issued s' = issued s @ [[''-C'', p, ''checkout'', branch]]"
  by (auto simp: Checkout_def split: prod.splits option.splits dest: RunInDir_issued)

lemma CreateBranch_error:
  "CreateBranch git branch p s = (Some e, s') \<Longrightarrow> \<exists>x. e = CreateFailed branch x"
  by (auto simp: CreateBranch_def split: prod.splits option.splits)

lemma Checkout_error:
  "Checkout git p branch s = (Some e, s') \<Longrightarrow> \<exists>x. e = CheckoutFailed branch p x"
  by (auto simp: Checkout_def split: prod.splits option.splits)

lemma DeleteBranch_error:
  "DeleteBranch git branch s = (Some e, s') \<Longrightarrow> \<exists>x. e = DeleteFailed branch x"
  by (auto simp: DeleteBranch_def split: prod.splits option.splits)

lemma FindWorktreeForBranch_found_issued:
  "FindWorktreeForBranch git branch s = (Inr found, s') \<Longrightarrow>
   issued s' = issued s @ [[''rev-parse'', ''--show-toplevel''], [''worktree'', ''list'', ''--porcelain'']]"
  by (auto simp: FindWorktreeForBranch_def split: prod.splits sum.splits
           dest!: GetCurrentWorktreePath_issued ListWorktrees_issued)

lemma FindWorktreeForBranch_error:
  "FindWorktreeForBranch git branch s = (Inl e, s') \<Longrightarrow>
   (\<exists>x. e = CurrentPathFailed x) \<or> (\<exists>x. e = ListFailed x)"
  by (auto simp: FindWorktreeForBranch_def GetCurrentWorktreePath_def ListWorktrees_def
           split: prod.splits sum.splits option.splits)

lemma mutating_simps [simp]:
  "\<not> mutating [''rev-parse'', ''--verify'', x]"
  "\<not> mutating [''rev-parse'', ''--show-toplevel'']"
  "\<not> mutating [''worktree'', ''list'', ''--porcelain'']"
  "\<not> mutating [''-C'', p, ''status'', ''--porcelain'']"
  "mutating [''-C'', p, ''branch'', b]"
  "mutating [''-C'', p, ''checkout'', b]"
  "mutating [''branch'', ''-D'', b]"
  by (simp_all add: mutating_def)

lemma Detach_cases:
  assumes D: "Detach git d branch opts s = (res, s')"
  shows
   "(res = Inl (BranchNotFound branch) \<and> issued s' = issued s @ [c_verify branch])
  \<or> ((\<exists>x. res = Inl (CurrentPathFailed x) \<or> res = Inl (ListFailed x)) \<and>
       (issued s' = issued s @ [c_verify branch, c_toplevel] \<or>
        issued s' = issued s @ [c_verify branch, c_toplevel, c_list]))
  \<or> (res = Inr \<lparr>Success = True, Message = not_checked_out_message branch, WorktreePath = [], TempBranch = []\<rparr>
        \<and> issued s' = issued s @ [c_verify branch, c_toplevel, c_list])
  \<or> (\<exists>p. res = Inl (UncommittedChanges p) \<and> \<not> Force opts \<and>
        issued s' = issued s @ [c_verify branch, c_toplevel, c_list, c_status p])
  \<or> (\<exists>p. res = Inl (TempBranchConflict (TempBranchName d branch)) \<and>
        issued s' = issued s @ [c_verify branch, c_toplevel, c_list, c_status p,
                                c_verify (TempBranchName d branch)])
  \<or> (\<exists>p. res = Inr \<lparr>Success = True, Message = ''dry-run'', WorktreePath = p, TempBranch = TempBranchName d branch\<rparr>
        \<and> DryRun opts \<and>
        issued s' = issued s @ [c_verify branch, c_toplevel, c_list, c_status p,
                                c_verify (TempBranchName d branch)])
  \<or> (\<exists>p x. res = Inl (CreateFailed (TempBranchName d branch) x) \<and> \<not> DryRun opts \<and>
        issued s' = issued s @ [c_verify branch, c_toplevel, c_list, c_status p,
                                c_verify (TempBranchName d branch), c_create p (TempBranchName d branch)])
  \<or> (\<exists>p x. res = Inl (CheckoutFailed (TempBranchName d branch) p x) \<and> \<not> DryRun opts \<and>
        issued s' = issued s @ [c_verify branch, c_toplevel, c_list, c_status p,
                                c_verify (TempBranchName d branch), c_create p (TempBranchName d branch),
                                c_checkout p (TempBranchName d branch), c_delete (TempBranchName d branch)])
  \<or> (\<exists>p. res = Inr \<lparr>Success = True, Message = detached_message branch, WorktreePath = p, TempBranch = TempBranchName d branch\<rparr>
        \<and> \<not> DryRun opts \<and>
        issued s' = issued s @ [c_verify branch, c_toplevel, c_list, c_status p,
                                c_verify (TempBranchName d branch), c_create p (TempBranchName d branch),
                                c_checkout p (TempBranchName d branch)])"
proof -
  obtain ok s1 where b1: "BranchExists git branch s = (ok, s1)"
    by (cases "BranchExists git branch s")
  have i1: "issued s1 = issued s @ [c_verify branch]"
    using BranchExists_issued [OF b1] by simp
  show ?thesis
  proof (cases ok)
    case False
    with D b1 have "res = Inl (BranchNotFound branch)" "s' = s1"
      by (simp_all add: Detach_def)
    with i1 show ?thesis by simp
  next
    case ok: True
    obtain fr s2 where f: "FindWorktreeForBranch git branch s1 = (fr, s2)"
      by (cases "FindWorktreeForBranch git branch s1")
    show ?thesis
    proof (cases fr)
      case (Inl e)
      with D b1 ok f have "res = Inl e" "s' = s2"
        by (simp_all add: Detach_def)
      moreover have "(\<exists>x. e = CurrentPathFailed x) \<or> (\<exists>x. e = ListFailed x)"
        using f Inl FindWorktreeForBranch_error by blast
      moreover have "issued s2 = issued s @ [c_verify branch, c_toplevel] \<or>
        issued s2 = issued s @ [c_verify branch, c_toplevel, c_list]"
        using FindWorktreeForBranch_issued [OF f] i1 by auto
      ultimately show ?thesis by auto
    next
      case (Inr found)
      have i2: "issued s2 = issued s @ [c_verify branch, c_toplevel, c_list]"
        using FindWorktreeForBranch_found_issued [of git branch s1 found s2] f Inr i1 by simp
      show ?thesis
      proof (cases found)
        case None
        with D b1 ok f Inr
        have "res = Inr \<lparr>Success = True, Message = not_checked_out_message branch,
                          WorktreePath = [], TempBranch = []\<rparr>" "s' = s2"
          by (simp_all add: Detach_def)
        with i2 show ?thesis by simp
      next
        case (Some wt)
        obtain dirty s3 where h: "HasUncommittedChanges git (Path wt) s2 = (dirty, s3)"
          by (cases "HasUncommittedChanges git (Path wt) s2")
        have i3: "issued s3 = issued s @ [c_verify branch, c_toplevel, c_list, c_status (Path wt)]"
          using HasUncommittedChanges_issued [OF h] i2 by simp
        show ?thesis
        proof (cases "dirty \<and> \<not> Force opts")
          case True
          with D b1 ok f Inr Some h have "res = Inl (UncommittedChanges (Path wt))" "s' = s3"
            by (simp_all add: Detach_def)
          with i3 True show ?thesis by simp
        next
          case clean: False
          obtain ex s4 where b2: "BranchExists git (TempBranchName d branch) s3 = (ex, s4)"
            by (cases "BranchExists git (TempBranchName d branch) s3")
          have i4: "issued s4 = issued s @ [c_verify branch, c_toplevel, c_list, c_status (Path wt),
                                c_verify (TempBranchName d branch)]"
            using BranchExists_issued [OF b2] i3 by simp
          show ?thesis
          proof (cases ex)
            case True
            with D b1 ok f Inr Some h clean b2
            have "res = Inl (TempBranchConflict (TempBranchName d branch))" "s' = s4"
              by (simp_all add: Detach_def)
            with i4 show ?thesis by simp
          next
            case free: False
            show ?thesis
            proof (cases "DryRun opts")
              case True
              with D b1 ok f Inr Some h clean b2 free
              have "res = Inr \<lparr>Success = True, Message = ''dry-run'', WorktreePath = Path wt,
                                TempBranch = TempBranchName d branch\<rparr>" "s' = s4"
                by (simp_all add: Detach_def)
              with i4 True show ?thesis by simp
            next
              case wet: False
              obtain cr s5 where c: "CreateBranch git (TempBranchName d branch) (Path wt) s4 = (cr, s5)"
                by (cases "CreateBranch git (TempBranchName d branch) (Path wt) s4")
              have i5: "issued s5 = issued s @ [c_verify branch, c_toplevel, c_list, c_status (Path wt),
                  c_verify (TempBranchName d branch), c_create (Path wt) (TempBranchName d branch)]"
                using CreateBranch_issued [OF c] i4 by simp
              show ?thesis
              proof (cases cr)
                case (Some e)
                with D b1 ok f Inr \<open>found = Some wt\<close> h clean b2 free wet c
                have "res = Inl e" "s' = s5"
                  by (simp_all add: Detach_def)
                moreover have "\<exists>x. e = CreateFailed (TempBranchName d branch) x"
                  using c Some CreateBranch_error by blast
                ultimately show ?thesis using wet i5 by auto
              next
                case created: None
                obtain ck s6 where k: "Checkout git (Path wt) (TempBranchName d branch) s5 = (ck, s6)"
                  by (cases "Checkout git (Path wt) (TempBranchName d branch) s5")
                have i6: "issued s6 = issued s @ [c_verify branch, c_toplevel, c_list, c_status (Path wt),
                  c_verify (TempBranchName d branch), c_create (Path wt) (TempBranchName d branch),
                  c_checkout (Path wt) (TempBranchName d branch)]"
                  using Checkout_issued [OF k] i5 by simp
                show ?thesis
                proof (cases ck)
                  case (Some e)
                  obtain dr s7 where dl: "DeleteBranch git (TempBranchName d branch) s6 = (dr, s7)"
                    by (cases "DeleteBranch git (TempBranchName d branch) s6")
                  have i7: "issued s7 = issued s @ [c_verify branch, c_toplevel, c_list, c_status (Path wt),
                    c_verify (TempBranchName d branch), c_create (Path wt) (TempBranchName d branch),
                    c_checkout (Path wt) (TempBranchName d branch), c_delete (TempBranchName d branch)]"
                    using DeleteBranch_issued [OF dl] i6 by simp
                  from D b1 ok f Inr \<open>found = Some wt\<close> h clean b2 free wet c created k Some dl
                  have "res = Inl e" "s' = s7"
                    by (simp_all add: Detach_def)
                  moreover have "\<exists>x. e = CheckoutFailed (TempBranchName d branch) (Path wt) x"
                    using k Some Checkout_error by blast
                  ultimately show ?thesis using wet i7 by auto
                next
                  case None
                  with D b1 ok f Inr \<open>found = Some wt\<close> h clean b2 free wet c created k
                  have "res = Inr \<lparr>Success = True, Message = detached_message branch,
                                    WorktreePath = Path wt, TempBranch = TempBranchName d branch\<rparr>"
                       "s' = s6"
                    by (simp_all add: Detach_def)
                  with wet i6 show ?thesis by simp
                qed
              qed
            qed
          qed
        qed
      qed
    qed
  qed
qed

lemma issued_by_append [simp]: "issued s' = issued s @ new \<Longrightarrow> issued_by s s' = new"
  by (simp add: issued_by_def)

lemma not_checked_out_contains:
  "not_checked_out_message branch =
     (''Branch '' @ [QUOTE] @ branch @ [QUOTE] @ '' is '') @ ''not checked out'' @ '' in any other worktree''"
  by (simp add: not_checked_out_message_def)

text \<open>
  Claim C5. A call of \<open>Detach\<close> that ends before the create step issues no command that
  creates, checks out or deletes a branch: this holds when it returns the error for a
  missing branch, the success result whose message says that the branch is not checked
  out in any other worktree (the message contains "not checked out"), the error for
  uncommitted changes, the error for an existing temp branch, or a success result with
  the message "dry-run"; with \<open>DryRun\<close> set no such command is ever issued; and a branch
  that \<open>BranchExists\<close> does not find gives the error for a missing branch.
\<close>

theorem Detach_no_mutation_before_create:
  assumes "Detach git d branch opts s = (res, s')"
  shows "(res = Inl (BranchNotFound branch)
          \<or> res = Inr \<lparr>Success = True, Message = not_checked_out_message branch,
                        WorktreePath = [], TempBranch = []\<rparr>
          \<or> (\<exists>p. res = Inl (UncommittedChanges p))
          \<or> res = Inl (TempBranchConflict (TempBranchName d branch))
          \<or> (\<exists>r. res = Inr r \<and> Message r = ''dry-run'')
         \<longrightarrow> filter mutating (issued_by s s') = [])
     \<and> (DryRun opts \<longrightarrow> filter mutating (issued_by s s') = [])
     \<and> (\<forall>r. DryRun opts \<and> res = Inr r \<longrightarrow>
            Message r = ''dry-run'' \<or> Message r = not_checked_out_message branch)
     \<and> (\<not> fst (BranchExists git branch s) \<longrightarrow> res = Inl (BranchNotFound branch))
     \<and> issued s' = issued s @ issued_by s s'
     \<and> (\<exists>pre post. not_checked_out_message branch = pre @ ''not checked out'' @ post)"
proof -
  have nm: "detached_message branch \<noteq> not_checked_out_message branch"
       "detached_message branch \<noteq> ''dry-run''"
    by (simp_all add: detached_message_def not_checked_out_message_def)
  have 3: "\<not> fst (BranchExists git branch s) \<longrightarrow> res = Inl (BranchNotFound branch)"
    using assms by (cases "BranchExists git branch s") (auto simp: Detach_def)
  have 5: "\<exists>pre post. not_checked_out_message branch = pre @ ''not checked out'' @ post"
    using not_checked_out_contains by blast
  from Detach_cases [OF assms] show ?thesis
    apply (elim disjE exE conjE)
    using 3 5 nm by simp_all
qed

text \<open>
  Claim C6. In every run of \<open>Detach\<close> that reaches the create step, creates the temp
  branch and then fails to check it out, the engine issues the command that deletes the
  temp branch, right after the failed checkout, and returns the error of the checkout
  whatever the deletion answers: never a success.
\<close>

theorem Detach_rollback:
  assumes "BranchExists git branch s0 = (True, s1)"
    and "FindWorktreeForBranch git branch s1 = (Inr (Some wt), s2)"
    and "HasUncommittedChanges git (Path wt) s2 = (dirty, s3)"
    and "\<not> dirty \<or> Force opts"
    and "BranchExists git (TempBranchName d branch) s3 = (False, s4)"
    and "\<not> DryRun opts"
    and "CreateBranch git (TempBranchName d branch) (Path wt) s4 = (None, s5)"
    and "Checkout git (Path wt) (TempBranchName d branch) s5 = (Some e, s6)"
  shows "Detach git d branch opts s0 = (Inl e, snd (DeleteBranch git (TempBranchName d branch) s6))
    \<and> (\<exists>x. e = CheckoutFailed (TempBranchName d branch) (Path wt) x)
    \<and> issued (snd (DeleteBranch git (TempBranchName d branch) s6)) =
        issued s4 @ [c_create (Path wt) (TempBranchName d branch),
                     c_checkout (Path wt) (TempBranchName d branch),
                     c_delete (TempBranchName d branch)]"
proof -
  obtain dr s7 where dl: "DeleteBranch git (TempBranchName d branch) s6 = (dr, s7)"
    by (cases "DeleteBranch git (TempBranchName d branch) s6")
  have "Detach git d branch opts s0 = (Inl e, s7)"
    using assms dl by (auto simp: Detach_def)
  moreover have "\<exists>x. e = CheckoutFailed (TempBranchName d branch) (Path wt) x"
    using assms(8) by (rule Checkout_error)
  moreover have "issued s7 = issued s4 @ [c_create (Path wt) (TempBranchName d branch),
                     c_checkout (Path wt) (TempBranchName d branch),
                     c_delete (TempBranchName d branch)]"
    using CreateBranch_issued [OF assms(7)] Checkout_issued [OF assms(8)] DeleteBranch_issued [OF dl]
    by simp
  ultimately show ?thesis using dl by simp
qed

lemma Revert_unattached:
  assumes "BranchExists git branch s0 = (True, s1)"
    and "BranchExists git (TempBranchName d branch) s1 = (True, s2)"
    and "FindWorktreeForBranch git (TempBranchName d branch) s2 = (Inr None, s3)"
  shows "(DryRun opts \<longrightarrow>
            Revert git d branch opts s0 =
              (Inr \<lparr>Success = True, Message = ''dry-run: would delete branch'',
                    WorktreePath = [], TempBranch = TempBranchName d branch\<rparr>, s3))
    \<and> (\<not> DryRun opts \<longrightarrow>
            Revert git d branch opts s0 =
              (case DeleteBranch git (TempBranchName d branch) s3 of
                 (Some e, s4) \<Rightarrow> (Inl e, s4)
               | (None, s4) \<Rightarrow>
                   (Inr \<lparr>Success = True, Message = deleted_message (TempBranchName d branch),
                         WorktreePath = [], TempBranch = TempBranchName d branch\<rparr>, s4)))
    \<and> issued s3 = issued s0 @ [c_verify branch, c_verify (TempBranchName d branch), c_toplevel, c_list]"
  using assms BranchExists_issued [OF assms(1)] BranchExists_issued [OF assms(2)]
    FindWorktreeForBranch_found_issued [OF assms(3)]
  by (simp add: Revert_def)

lemma Revert_attached:
  assumes "BranchExists git branch s0 = (True, s1)"
    and "BranchExists git (TempBranchName d branch) s1 = (True, s2)"
    and "FindWorktreeForBranch git (TempBranchName d branch) s2 = (Inr (Some wt), s3)"
    and R: "Revert git d branch opts s0 = (res, s')"
  shows "(res = Inl (UncommittedChanges (Path wt)) \<and> \<not> Force opts \<and>
            fst (HasUncommittedChanges git (Path wt) s3) \<and>
            issued s' = issued s3 @ [c_status (Path wt)])
    \<or> (res = Inr \<lparr>Success = True, Message = ''dry-run'', WorktreePath = Path wt,
                    TempBranch = TempBranchName d branch\<rparr> \<and> DryRun opts \<and>
            issued s' = issued s3 @ [c_status (Path wt)])
    \<or> ((\<exists>x. res = Inl (CheckoutFailed branch (Path wt) x)) \<and> \<not> DryRun opts \<and>
            issued s' = issued s3 @ [c_status (Path wt), c_checkout (Path wt) branch])
    \<or> ((\<exists>x. res = Inl (DeleteFailed (TempBranchName d branch) x)) \<and> \<not> DryRun opts \<and>
            issued s' = issued s3 @ [c_status (Path wt), c_checkout (Path wt) branch,
                                     c_delete (TempBranchName d branch)])
    \<or> (res = Inr \<lparr>Success = True, Message = restored_message branch, WorktreePath = Path wt,
                    TempBranch = TempBranchName d branch\<rparr> \<and> \<not> DryRun opts \<and>
            issued s' = issued s3 @ [c_status (Path wt), c_checkout (Path wt) branch,
                                     c_delete (TempBranchName d branch)])"
proof -
  note pre = assms(1-3)
  obtain dirty s4 where h: "HasUncommittedChanges git (Path wt) s3 = (dirty, s4)"
    by (cases "HasUncommittedChanges git (Path wt) s3")
  have i4: "issued s4 = issued s3 @ [c_status (Path wt)]"
    using HasUncommittedChanges_issued [OF h] by simp
  show ?thesis
  proof (cases "dirty \<and> \<not> Force opts")
    case True
    with R pre h have "res = Inl (UncommittedChanges (Path wt))" "s' = s4"
      by (simp_all add: Revert_def)
    with i4 True h show ?thesis by simp
  next
    case clean: False
    show ?thesis
    proof (cases "DryRun opts")
      case True
      with R pre h clean
      have "res = Inr \<lparr>Success = True, Message = ''dry-run'', WorktreePath = Path wt,
                    TempBranch = TempBranchName d branch\<rparr>" "s' = s4"
        by (simp_all add: Revert_def)
      with i4 True show ?thesis by simp
    next
      case wet: False
      obtain ck s5 where k: "Checkout git (Path wt) branch s4 = (ck, s5)"
        by (cases "Checkout git (Path wt) branch s4")
      have i5: "issued s5 = issued s3 @ [c_status (Path wt), c_checkout (Path wt) branch]"
        using Checkout_issued [OF k] i4 by simp
      show ?thesis
      proof (cases ck)
        case (Some e)
        with R pre h clean wet k have "res = Inl e" "s' = s5"
          by (simp_all add: Revert_def)
        moreover have "\<exists>x. e = CheckoutFailed branch (Path wt) x"
          using k Some Checkout_error by blast
        ultimately show ?thesis using wet i5 by auto
      next
        case switched: None
        obtain dr s6 where dl: "DeleteBranch git (TempBranchName d branch) s5 = (dr, s6)"
          by (cases "DeleteBranch git (TempBranchName d branch) s5")
        have i6: "issued s6 = issued s3 @ [c_status (Path wt), c_checkout (Path wt) branch,
                                     c_delete (TempBranchName d branch)]"
          using DeleteBranch_issued [OF dl] i5 by simp
        show ?thesis
        proof (cases dr)
          case (Some e)
          with R pre h clean wet k switched dl have "res = Inl e" "s' = s6"
            by (simp_all add: Revert_def)
          moreover have "\<exists>x. e = DeleteFailed (TempBranchName d branch) x"
            using dl Some DeleteBranch_error by blast
          ultimately show ?thesis using wet i6 by auto
        next
          case None
          with R pre h clean wet k switched dl
          have "res = Inr \<lparr>Success = True, Message = restored_message branch, WorktreePath = Path wt,
                    TempBranch = TempBranchName d branch\<rparr>" "s' = s6"
            by (simp_all add: Revert_def)
          with wet i6 show ?thesis by simp
        qed
      qed
    qed
  qed
qed

lemma FindWorktreeForBranch_eq:
  assumes "GetCurrentWorktreePath git s = (Inr cur, s1)"
    and "ListWorktrees git s1 = (Inr wts, s2)"
  shows "FindWorktreeForBranch git branch s = (Inr (FindWorktreeByBranch wts branch cur), s2)"
  using assms by (simp add: FindWorktreeForBranch_def)

lemma Revert_unattached_outcome:
  assumes "BranchExists git branch s0 = (True, s1)"
    and "BranchExists git (TempBranchName d branch) s1 = (True, s2)"
    and "FindWorktreeForBranch git (TempBranchName d branch) s2 = (Inr None, s3)"
    and "Revert git d branch opts s0 = (res, s')"
  shows "(DryRun opts \<longrightarrow>
            res = Inr \<lparr>Success = True, Message = ''dry-run: would delete branch'',
                        WorktreePath = [], TempBranch = TempBranchName d branch\<rparr>
            \<and> filter mutating (issued_by s0 s') = [])
    \<and> (\<not> DryRun opts \<longrightarrow>
            filter mutating (issued_by s0 s') = [c_delete (TempBranchName d branch)]
            \<and> issued_by s3 s' = [c_delete (TempBranchName d branch)]
            \<and> s' = snd (DeleteBranch git (TempBranchName d branch) s3)
            \<and> (fst (DeleteBranch git (TempBranchName d branch) s3) = None \<longrightarrow>
                 res = Inr \<lparr>Success = True, Message = deleted_message (TempBranchName d branch),
                             WorktreePath = [], TempBranch = TempBranchName d branch\<rparr>)
            \<and> (\<forall>e. fst (DeleteBranch git (TempBranchName d branch) s3) = Some e \<longrightarrow>
                 res = Inl e \<and> (\<exists>x. e = DeleteFailed (TempBranchName d branch) x)))"
proof -
  note u = Revert_unattached [OF assms(1-3), of opts]
  obtain dr s4 where dl: "DeleteBranch git (TempBranchName d branch) s3 = (dr, s4)"
    by (cases "DeleteBranch git (TempBranchName d branch) s3")
  have i4: "issued s4 = issued s3 @ [c_delete (TempBranchName d branch)]"
    using DeleteBranch_issued [OF dl] by simp
  show ?thesis
  proof (cases "DryRun opts")
    case True
    with u assms(4) show ?thesis by simp
  next
    case False
    with u assms(4) dl have r: "(res, s') = (case dr of Some e \<Rightarrow> (Inl e, s4) | None \<Rightarrow>
       (Inr \<lparr>Success = True, Message = deleted_message (TempBranchName d branch),
                             WorktreePath = [], TempBranch = TempBranchName d branch\<rparr>, s4))"
      by simp
    then have s: "s' = s4" by (cases dr) simp_all
    have e: "\<forall>e. dr = Some e \<longrightarrow> (\<exists>x. e = DeleteFailed (TempBranchName d branch) x)"
      using dl DeleteBranch_error by blast
    from u have "issued s4 = issued s0 @ [c_verify branch, c_verify (TempBranchName d branch),
        c_toplevel, c_list, c_delete (TempBranchName d branch)]"
      using i4 by simp
    with False s r dl i4 e show ?thesis by (cases dr) auto
  qed
qed

text \<open>
  Claim C8, as amended. In \<open>Revert\<close>, when the temp branch exists and the lookup finds no
  worktree holding it: with \<open>DryRun\<close> set the result reports the pending deletion and no
  mutating command is issued; otherwise exactly one mutating command is issued, the
  deletion of the temp branch, and no checkout; the result is the success result that
  carries the temp branch name when the deletion succeeds, and the error of the
  deletion when it fails.
\<close>

theorem Revert_unattached_only_deletes:
  assumes "BranchExists git branch s0 = (True, s1)"
    and "BranchExists git (TempBranchName d branch) s1 = (True, s2)"
    and "FindWorktreeForBranch git (TempBranchName d branch) s2 = (Inr None, s3)"
    and "Revert git d branch opts s0 = (res, s')"
  shows "(DryRun opts \<longrightarrow>
            res = Inr \<lparr>Success = True, Message = ''dry-run: would delete branch'',
                        WorktreePath = [], TempBranch = TempBranchName d branch\<rparr>
            \<and> filter mutating (issued_by s0 s') = [])
    \<and> (\<not> DryRun opts \<longrightarrow>
            filter mutating (issued_by s0 s') = [c_delete (TempBranchName d branch)]
            \<and> issued_by s3 s' = [c_delete (TempBranchName d branch)]
            \<and> s' = snd (DeleteBranch git (TempBranchName d branch) s3)
            \<and> (fst (DeleteBranch git (TempBranchName d branch) s3) = None \<longrightarrow>
                 res = Inr \<lparr>Success = True, Message = deleted_message (TempBranchName d branch),
                             WorktreePath = [], TempBranch = TempBranchName d branch\<rparr>)
            \<and> (\<forall>e. fst (DeleteBranch git (TempBranchName d branch) s3) = Some e \<longrightarrow>
                 res = Inl e \<and> (\<exists>x. e = DeleteFailed (TempBranchName d branch) x)))"
  using assms by (rule Revert_unattached_outcome)

text \<open>
  Claim C1, as amended. The lookup of \<open>Revert\<close> is \<open>FindWorktreeForBranch\<close>, which leaves
  out the worktree the command runs from. When some worktree of the list other than the
  current one has the temp branch checked out, \<open>Revert\<close> finds the first such worktree
  and goes on with its status, the checkout of the branch there and the deletion of the
  temp branch. When only the current worktree has it checked out (or none has), \<open>Revert\<close>
  treats the temp branch as unattached: it reports the pending deletion under \<open>DryRun\<close>
  and otherwise issues the deletion alone.
\<close>

theorem Revert_lookup_excludes_current:
  assumes "BranchExists git branch s0 = (True, s1)"
    and "BranchExists git (TempBranchName d branch) s1 = (True, s2)"
    and "GetCurrentWorktreePath git s2 = (Inr cur, sc)"
    and "ListWorktrees git sc = (Inr wts, s3)"
    and "Revert git d branch opts s0 = (res, s')"
  shows "((\<exists>w \<in> set wts. Branch w = TempBranchName d branch \<and> Path w \<noteq> cur) \<longrightarrow>
           (\<exists>wt. FindWorktreeByBranch wts (TempBranchName d branch) cur = Some wt
              \<and> Branch wt = TempBranchName d branch \<and> Path wt \<noteq> cur
              \<and> (issued_by s3 s' = [c_status (Path wt)]
                 \<or> issued_by s3 s' = [c_status (Path wt), c_checkout (Path wt) branch]
                 \<or> issued_by s3 s' = [c_status (Path wt), c_checkout (Path wt) branch,
                                        c_delete (TempBranchName d branch)])
              \<and> (\<not> DryRun opts \<and> (Force opts \<or> \<not> fst (HasUncommittedChanges git (Path wt) s3)) \<longrightarrow>
                   take 2 (issued_by s3 s') = [c_status (Path wt), c_checkout (Path wt) branch])))
    \<and> ((\<forall>w \<in> set wts. Branch w = TempBranchName d branch \<longrightarrow> Path w = cur) \<longrightarrow>
           (DryRun opts \<longrightarrow>
              res = Inr \<lparr>Success = True, Message = ''dry-run: would delete branch'',
                          WorktreePath = [], TempBranch = TempBranchName d branch\<rparr> \<and> s' = s3)
         \<and> (\<not> DryRun opts \<longrightarrow> issued_by s3 s' = [c_delete (TempBranchName d branch)]))"
proof -
  note f = FindWorktreeForBranch_eq [OF assms(3,4), of "TempBranchName d branch"]
  show ?thesis
  proof (cases "FindWorktreeByBranch wts (TempBranchName d branch) cur")
    case None
    then have n: "\<forall>w \<in> set wts. \<not> (Branch w = TempBranchName d branch \<and> Path w \<noteq> cur)"
      by (simp add: FindWorktreeByBranch_None_iff)
    from f None have f': "FindWorktreeForBranch git (TempBranchName d branch) s2 = (Inr None, s3)"
      by simp
    from Revert_unattached_outcome [OF assms(1,2) f' assms(5)]
         Revert_unattached [OF assms(1,2) f', of opts] assms(5) n
    show ?thesis by auto
  next
    case (Some wt)
    then have m: "Branch wt = TempBranchName d branch" "Path wt \<noteq> cur" "wt \<in> set wts"
      by (auto simp: FindWorktreeByBranch_Some_iff)
    from f Some have f': "FindWorktreeForBranch git (TempBranchName d branch) s2 = (Inr (Some wt), s3)"
      by simp
    obtain dirty s4 where h: "HasUncommittedChanges git (Path wt) s3 = (dirty, s4)"
      by (cases "HasUncommittedChanges git (Path wt) s3")
    have "\<not> DryRun opts \<and> (Force opts \<or> \<not> dirty) \<longrightarrow>
            take 2 (issued_by s3 s') = [c_status (Path wt), c_checkout (Path wt) branch]"
      using Revert_attached [OF assms(1,2) f' assms(5)] h by auto
    with Revert_attached [OF assms(1,2) f' assms(5)] Some m h show ?thesis
      by auto
  qed
qed

text \<open>
  Claim C9. The suffix of a detacher is never empty: \<open>NewDetacher\<close> sets it to
  \<open>__wt_detach\<close>, \<open>SetSuffix\<close> with the empty string changes nothing,
  \<open>LoadSuffixFromConfig\<close> changes the suffix only to a non-empty value that the command
  returned without error; so for every detacher reached from \<open>NewDetacher\<close> by these
  operations the temp branch name differs from the branch name.
\<close>

theorem suffix_never_empty:
  "suffix_field NewDetacher = ''__wt_detach''
   \<and> SetSuffix d [] = d
   \<and> (suffix_field (fst (LoadSuffixFromConfig git d s)) \<noteq> suffix_field d \<longrightarrow>
        (\<exists>v. fst (Run git [''config'', ''--get'', ''wt-detach.suffix''] s) = (v, None) \<and> v \<noteq> []
           \<and> suffix_field (fst (LoadSuffixFromConfig git d s)) = v))
   \<and> (configured git d \<longrightarrow> suffix_field d \<noteq> [] \<and> TempBranchName d b \<noteq> b)"
proof -
  have l: "suffix_field (fst (LoadSuffixFromConfig git d s)) \<noteq> suffix_field d \<longrightarrow>
        (\<exists>v. fst (Run git [''config'', ''--get'', ''wt-detach.suffix''] s) = (v, None) \<and> v \<noteq> []
           \<and> suffix_field (fst (LoadSuffixFromConfig git d s)) = v)" for d :: Detacher and s
    by (auto simp: LoadSuffixFromConfig_def split: prod.splits)
  have c: "configured git d \<Longrightarrow> suffix_field d \<noteq> []"
  proof (induction rule: configured.induct)
    case new
    then show ?case by (simp add: NewDetacher_def DefaultSuffix_def)
  next
    case (set d sfx)
    then show ?case by (simp add: SetSuffix_def)
  next
    case (load d s)
    then show ?case using l [of d s] by (cases "suffix_field (fst (LoadSuffixFromConfig git d s)) = suffix_field d") auto
  qed
  show ?thesis
    using l [of d s] c by (auto simp: NewDetacher_def DefaultSuffix_def SetSuffix_def TempBranchName_def)
qed

section \<open>The engine on the repository model\<close>

lemma trim_left_id: "find (\<lambda>e. prefix e s) space_encodings = None \<Longrightarrow> trim_left s = s"
  by (subst trim_left.simps) simp

lemma trim_right_id: "no_trailing_space s \<Longrightarrow> trim_right s = s"
  by (subst trim_right.simps) (simp add: no_trailing_space_def)

lemma trim_left_worktree: "trim_left (''worktree '' @ s) = ''worktree '' @ s"
  by (rule trim_left_id) (simp add: space_encodings_def)

lemma trim_right_snoc_NL: "trim_right (s @ [NL]) = trim_right s"
proof -
  have "find (\<lambda>e. suffix e (s @ [NL])) space_encodings = Some [NL]"
    by (simp add: space_encodings_def suffix_to_prefix)
  then show ?thesis
    by (subst trim_right.simps) simp
qed

lemma space_encodings_short: "e \<in> set space_encodings \<Longrightarrow> length e \<le> 3"
  by (auto simp: space_encodings_def)

lemma suffix_append_long:
  assumes "suffix e (y @ l)" "length e \<le> length l"
  shows "suffix e l"
proof -
  from assms(1) obtain zs where zs: "y @ l = zs @ e" by (auto simp: suffix_def)
  then have "length y + length l = length zs + length e"
    by (metis length_append)
  with assms(2) have "length zs \<ge> length y" by linarith
  with zs obtain zs' where "zs = y @ zs'"
    by (metis append_eq_append_conv_if append_take_drop_id)
  with zs show ?thesis by (auto simp: suffix_def)
qed

lemma no_trailing_space_append:
  assumes "no_trailing_space l" "3 \<le> length l"
  shows "no_trailing_space (y @ l)"
proof -
  have "\<not> suffix e (y @ l)" if e: "e \<in> set space_encodings" for e
  proof
    assume "suffix e (y @ l)"
    then have "suffix e l"
      using suffix_append_long [of e y l] space_encodings_short [OF e] assms(2) by simp
    with assms(1) e show False
      by (auto simp: no_trailing_space_def find_None_iff)
  qed
  then show ?thesis by (auto simp: no_trailing_space_def find_None_iff)
qed

lemma TrimSpace_Nil: "TrimSpace [] = []"
proof -
  have "trim_left [] = []" by (rule trim_left_id) (simp add: space_encodings_def)
  moreover have "trim_right [] = []"
    by (subst trim_right.simps) (simp add: space_encodings_def)
  ultimately show ?thesis by (simp add: TrimSpace_def)
qed

text \<open>The listing of the model is a well-formed listing.\<close>

lemma render_worktree_block: "render_worktree w = render_block (wt_block w)"
  by (simp add: render_worktree_def render_block_def wt_block_def)

lemma wf_block_wt_block: "wf_entry w \<Longrightarrow> wf_block (wt_block w)"
  by (auto simp: wf_entry_def branch_line_ok_def wf_block_def wt_block_def HasPrefix_def line_ok_def
      MaxScanTokenSize_def)

lemma block_record_wt_block: "block_record (wt_block w) = wt_record w"
  by (simp add: block_record_def wt_block_def wt_record_def block_branch_def HasPrefix_def
      TrimPrefix_def)

lemma last_line_plain:
  assumes "wf_entry w"
  shows "no_trailing_space (if wbranch w = [] then ''detached'' else ''branch refs/heads/'' @ wbranch w)"
proof (cases "wbranch w = []")
  case True
  have "no_trailing_space ''detached''"
    by (simp add: no_trailing_space_def space_encodings_def suffix_to_prefix)
  with True show ?thesis by simp
next
  case False
  with assms show ?thesis by (simp add: wf_entry_def branch_line_ok_def)
qed

lemma TrimSpace_listing:
  assumes "\<forall>w \<in> set wts. wf_entry w" "wts \<noteq> []"
  shows "TrimSpace (concat (map render_worktree wts)) @ [NL, NL] = concat (map render_worktree wts)"
proof -
  let ?X = "concat (map render_worktree wts)"
  obtain a as where a: "wts = a # as" using assms(2) by (cases wts) auto
  obtain ws w where w: "wts = ws @ [w]" using assms(2) by (cases wts rule: rev_cases) auto
  let ?l = "if wbranch w = [] then ''detached'' else ''branch refs/heads/'' @ wbranch w"
  let ?y = "concat (map render_worktree ws) @ ''worktree '' @ wpath w @ [NL] @ ''HEAD '' @ whead w @ [NL]"
  have "?X = ''worktree '' @ (wpath a @ [NL] @ ''HEAD '' @ whead a @ [NL]
     @ (if wbranch a = [] then ''detached'' else ''branch refs/heads/'' @ wbranch a) @ [NL]
     @ [NL] @ concat (map render_worktree as))"
    by (simp add: a render_worktree_def)
  then have "trim_left ?X = ?X"
    by (simp only: trim_left_worktree)
  moreover have r: "?X = ((?y @ ?l) @ [NL]) @ [NL]"
    by (simp add: w render_worktree_def)
  moreover have "trim_right (((?y @ ?l) @ [NL]) @ [NL]) = ?y @ ?l"
  proof -
    have "wf_entry w" using assms(1) w by simp
    moreover have "3 \<le> length ?l" by simp
    ultimately have "no_trailing_space (?y @ ?l)"
      using no_trailing_space_append [OF last_line_plain] by blast
    then show ?thesis
      by (simp only: trim_right_snoc_NL trim_right_id)
  qed
  ultimately have "TrimSpace ?X = ?y @ ?l"
    by (simp only: TrimSpace_def)
  with r show ?thesis by simp
qed

lemma ParseWorktreeList_TrimSpace_listing:
  assumes "\<forall>w \<in> set wts. wf_entry w"
  shows "ParseWorktreeList (TrimSpace (concat (map render_worktree wts))) = map wt_record wts"
proof -
  have b: "\<forall>b \<in> set (map wt_block wts). wf_block b"
    using assms by (auto simp: wf_block_wt_block)
  have "render_worktree = render_block \<circ> wt_block"
    by (rule ext) (simp add: render_worktree_block)
  then have c: "concat (map render_worktree wts) = render_blocks (map wt_block wts)"
    by (simp add: render_blocks_def)
  have "block_record \<circ> wt_block = wt_record"
    by (rule ext) (simp add: block_record_wt_block)
  then have m: "map block_record (map wt_block wts) = map wt_record wts"
    by simp
  have p: "ParseWorktreeList (concat (map render_worktree wts)) = map wt_record wts"
    using ParseWorktreeList_blocks [OF b] by (simp only: c m)
  show ?thesis
  proof (cases "wts = []")
    case True
    then show ?thesis by (simp add: TrimSpace_Nil ParseWorktreeList_empty)
  next
    case False
    let ?T = "TrimSpace (concat (map render_worktree wts))"
    have "ParseWorktreeList ?T = ParseWorktreeList ((?T @ [NL]) @ [NL])"
      by (simp only: ParseWorktreeList_snoc_NL)
    also have "(?T @ [NL]) @ [NL] = concat (map render_worktree wts)"
      using TrimSpace_listing [OF assms False] by simp
    finally show ?thesis using p by simp
  qed
qed

text \<open>The operations of the engine on the model.\<close>

lemma git_BranchExists:
  "BranchExists git_model b \<lparr>world = r, issued = i\<rparr> =
     (map_of (branches r) b \<noteq> None, \<lparr>world = r, issued = i @ [c_verify b]\<rparr>)"
  by (simp add: BranchExists_def Run_def git_model_def git_rev_parse_verify_def git_fail_def
      HasPrefix_def TrimPrefix_def split: option.splits)

lemma git_GetCurrentWorktreePath:
  "GetCurrentWorktreePath git_model \<lparr>world = r, issued = i\<rparr> =
     (Inr (TrimSpace (cwd r @ [NL])), \<lparr>world = r, issued = i @ [c_toplevel]\<rparr>)"
  by (simp add: GetCurrentWorktreePath_def Run_def git_model_def git_show_toplevel_def)

lemma git_ListWorktrees:
  "ListWorktrees git_model \<lparr>world = r, issued = i\<rparr> =
     (Inr (ParseWorktreeList (TrimSpace (concat (map render_worktree (worktrees r))))),
      \<lparr>world = r, issued = i @ [c_list]\<rparr>)"
  by (simp add: ListWorktrees_def Run_def git_model_def git_worktree_list_def)

lemma git_FindWorktreeForBranch:
  "FindWorktreeForBranch git_model b \<lparr>world = r, issued = i\<rparr> =
     (Inr (FindWorktreeByBranch
             (ParseWorktreeList (TrimSpace (concat (map render_worktree (worktrees r)))))
             b (TrimSpace (cwd r @ [NL]))),
      \<lparr>world = r, issued = i @ [c_toplevel, c_list]\<rparr>)"
  by (simp add: FindWorktreeForBranch_def git_GetCurrentWorktreePath git_ListWorktrees)

lemma git_HasUncommittedChanges:
  "HasUncommittedChanges git_model p \<lparr>world = r, issued = i\<rparr> =
     (case find (\<lambda>w. wpath w = p) (worktrees r) of
        None \<Rightarrow> True
      | Some w \<Rightarrow> TrimSpace (wstatus w) \<noteq> [],
      \<lparr>world = r, issued = i @ [c_status p]\<rparr>)"
  by (simp add: HasUncommittedChanges_def RunInDir_def git_model_def git_status_def git_fail_def
      split: option.splits)

lemma git_CreateBranch:
  "CreateBranch git_model b p \<lparr>world = r, issued = i\<rparr> =
     (map_option (CreateFailed b) (snd (fst (git_branch_create p b r))),
      \<lparr>world = snd (git_branch_create p b r), issued = i @ [c_create p b]\<rparr>)"
  by (simp add: CreateBranch_def RunInDir_def git_model_def split: prod.splits option.splits)

lemma git_Checkout:
  "Checkout git_model p b \<lparr>world = r, issued = i\<rparr> =
     (map_option (CheckoutFailed b p) (snd (fst (git_checkout p b r))),
      \<lparr>world = snd (git_checkout p b r), issued = i @ [c_checkout p b]\<rparr>)"
  by (simp add: Checkout_def RunInDir_def git_model_def split: prod.splits option.splits)

lemma git_DeleteBranch:
  "DeleteBranch git_model b \<lparr>world = r, issued = i\<rparr> =
     (map_option (DeleteFailed b) (snd (fst (git_branch_delete b r))),
      \<lparr>world = snd (git_branch_delete b r), issued = i @ [c_delete b]\<rparr>)"
  by (simp add: DeleteBranch_def Run_def git_model_def split: prod.splits option.splits)

lemma find_path_unique:
  "distinct (map wpath wts) \<Longrightarrow> w \<in> set wts \<Longrightarrow> find (\<lambda>x. wpath x = wpath w) wts = Some w"
  by (induction wts) (auto simp: image_iff)

lemma FindWorktreeByBranch_unique:
  assumes "distinct (filter (\<lambda>b. b \<noteq> []) (map wbranch wts))"
    and "w \<in> set wts" "wbranch w = b" "b \<noteq> []" "wpath w \<noteq> cur"
  shows "FindWorktreeByBranch (map wt_record wts) b cur = Some (wt_record w)"
  using assms
proof (induction wts)
  case Nil
  then show ?case by simp
next
  case (Cons a wts)
  show ?case
  proof (cases "a = w")
    case True
    with Cons.prems show ?thesis by (simp add: wt_record_def)
  next
    case False
    with Cons.prems have w: "w \<in> set wts" by simp
    have "wbranch a \<noteq> b"
    proof
      assume "wbranch a = b"
      with Cons.prems w show False by (auto simp: image_iff)
    qed
    moreover have "distinct (filter (\<lambda>b. b \<noteq> []) (map wbranch wts))"
      using Cons.prems(1) by (simp split: if_splits)
    ultimately show ?thesis
      using Cons.IH w Cons.prems by (simp add: wt_record_def)
  qed
qed

lemma branch_unique:
  "distinct (filter (\<lambda>b. b \<noteq> []) (map wbranch wts)) \<Longrightarrow> x \<in> set wts \<Longrightarrow> y \<in> set wts \<Longrightarrow>
   wbranch x = wbranch y \<Longrightarrow> wbranch x \<noteq> [] \<Longrightarrow> x = y"
  by (induction wts) (auto simp: image_iff split: if_splits)

lemma wpath_on_branch [simp]: "wpath (on_branch p c b x) = wpath x"
  by (simp add: on_branch_def)

lemma map_wpath_on_branch [simp]: "map wpath (map (on_branch p c b) wts) = map wpath wts"
  by (induction wts) simp_all

lemma FindWorktreeByBranch_switched:
  assumes "distinct (map wpath wts)" "w \<in> set wts" "wpath w \<noteq> cur"
    and "\<forall>x \<in> set wts. wbranch x \<noteq> t"
  shows "FindWorktreeByBranch (map wt_record (map (on_branch (wpath w) c t) wts)) t cur
           = Some \<lparr>Path = wpath w, Branch = t\<rparr>"
  using assms
proof (induction wts)
  case Nil
  then show ?case by simp
next
  case (Cons a wts)
  show ?case
  proof (cases "wpath a = wpath w")
    case True
    with Cons.prems show ?thesis by (simp add: wt_record_def on_branch_def)
  next
    case False
    with Cons.prems have "w \<in> set wts" by auto
    with Cons False show ?thesis by (simp add: wt_record_def on_branch_def)
  qed
qed

lemma map_of_snoc_other: "k \<noteq> t \<Longrightarrow> map_of (xs @ [(t, c)]) k = map_of xs k"
  by (induction xs) auto

lemma map_of_snoc_new: "map_of xs t = None \<Longrightarrow> map_of (xs @ [(t, c)]) t = Some c"
  by (induction xs) auto

lemma filter_snoc_new:
  "map_of xs t = None \<Longrightarrow> filter (\<lambda>nc. fst nc \<noteq> t) (xs @ [(t, c)]) = xs"
  by (induction xs) (auto split: if_splits)

lemma filter_absent:
  "map_of xs t = None \<Longrightarrow> filter (\<lambda>nc. fst nc \<noteq> t) xs = xs"
  by (induction xs) (auto split: if_splits)

lemma switch_back:
  assumes "distinct (map wpath wts)" "w \<in> set wts" "wbranch w = b"
  shows "map (on_branch (wpath w) (whead w) b) (map (on_branch (wpath w) (whead w) t) wts) = wts"
proof -
  have "on_branch (wpath w) (whead w) b (on_branch (wpath w) (whead w) t x) = x" if "x \<in> set wts" for x
  proof (cases "wpath x = wpath w")
    case True
    with assms that have "x = w"
      by (metis distinct_map inj_onD)
    with assms(3) show ?thesis by (simp add: on_branch_def)
  next
    case False
    then show ?thesis by (simp add: on_branch_def)
  qed
  then show ?thesis by (simp add: map_idI)
qed

lemma round_trip_facts:
  assumes wf: "wf_repo r"
    and ex: "map_of (branches r) b \<noteq> None"
    and w: "w \<in> set (worktrees r)" "wbranch w = b" "wpath w \<noteq> cwd r"
    and free: "map_of (branches r) t = None"
  shows "b \<noteq> []" "map_of (branches r) b = Some (whead w)" "t \<noteq> b"
    "\<forall>x \<in> set (worktrees r). wbranch x = t \<longrightarrow> t = []"
    "\<forall>x \<in> set (worktrees r). wbranch x = b \<longrightarrow> x = w"
proof -
  from ex have "b \<in> set (map fst (branches r))"
    by (metis map_of_eq_None_iff set_map)
  with wf show b: "b \<noteq> []" unfolding wf_repo_def by blast
  with wf w show "map_of (branches r) b = Some (whead w)" by (auto simp: wf_repo_def)
  with free show "t \<noteq> b" by auto
  show "\<forall>x \<in> set (worktrees r). wbranch x = t \<longrightarrow> t = []"
    using wf free by (auto simp: wf_repo_def)
  show "\<forall>x \<in> set (worktrees r). wbranch x = b \<longrightarrow> x = w"
  proof (intro ballI impI)
    fix x assume x: "x \<in> set (worktrees r)" "wbranch x = b"
    have d: "distinct (filter (\<lambda>b. b \<noteq> []) (map wbranch (worktrees r)))"
      using wf by (simp add: wf_repo_def)
    show "x = w"
      using branch_unique [OF d x(1) w(1)] x(2) w(2) b by simp
  qed
qed

lemma wf_entry_listing:
  assumes "\<forall>x \<in> set wts. wf_entry x" "branch_line_ok t" "line_ok (''HEAD '' @ c)"
  shows "\<forall>x \<in> set (map (on_branch p c t) wts). wf_entry x"
  using assms by (auto simp: on_branch_def wf_entry_def)

lemma Detach_git_model:
  assumes wf: "wf_repo r"
    and ex: "map_of (branches r) b \<noteq> None"
    and w: "w \<in> set (worktrees r)" "wbranch w = b" "wpath w \<noteq> cwd r"
    and clean: "TrimSpace (wstatus w) = []"
    and free: "map_of (branches r) (TempBranchName d b) = None"
    and wet: "\<not> DryRun opts"
  shows "Detach git_model d b opts \<lparr>world = r, issued = i\<rparr> =
    (Inr \<lparr>Success = True, Message = detached_message b, WorktreePath = wpath w,
          TempBranch = TempBranchName d b\<rparr>,
     \<lparr>world = detached_repo r w (TempBranchName d b),
      issued = i @ [c_verify b, c_toplevel, c_list, c_status (wpath w),
                    c_verify (TempBranchName d b), c_create (wpath w) (TempBranchName d b),
                    c_checkout (wpath w) (TempBranchName d b)]\<rparr>)"
proof -
  let ?t = "TempBranchName d b"
  note facts = round_trip_facts [OF wf ex w free]
  have dp: "distinct (map wpath (worktrees r))"
    and db: "distinct (filter (\<lambda>b. b \<noteq> []) (map wbranch (worktrees r)))"
    and en: "\<forall>x \<in> set (worktrees r). wf_entry x"
    and cw: "TrimSpace (cwd r @ [NL]) = cwd r"
    using wf by (auto simp: wf_repo_def)
  have tne: "?t \<noteq> []" using facts(1) by (simp add: TempBranchName_def)
  have f: "FindWorktreeForBranch git_model b \<lparr>world = r, issued = i'\<rparr> =
     (Inr (Some (wt_record w)), \<lparr>world = r, issued = i' @ [c_toplevel, c_list]\<rparr>)" for i'
    by (simp add: git_FindWorktreeForBranch ParseWorktreeList_TrimSpace_listing [OF en] cw
        FindWorktreeByBranch_unique [OF db w(1,2) facts(1) w(3)])
  have fp: "find (\<lambda>x. wpath x = wpath w) (worktrees r) = Some w"
    using find_path_unique [OF dp w(1)] .
  have cr: "git_branch_create (wpath w) ?t r =
     (([], None), r\<lparr>branches := branches r @ [(?t, whead w)]\<rparr>)"
    by (simp add: git_branch_create_def fp free)
  have nt: "\<not> list_ex (\<lambda>w'. wpath w' \<noteq> wpath w \<and> wbranch w' = ?t) (worktrees r)"
    using facts(4) tne by (auto simp: list_ex_iff)
  have ck: "git_checkout (wpath w) ?t (r\<lparr>branches := branches r @ [(?t, whead w)]\<rparr>) =
     (([], None), detached_repo r w ?t)"
    using nt by (simp add: git_checkout_def fp map_of_snoc_new [OF free] detached_repo_def
        on_branch_def [abs_def] del: map_of_append)
  show ?thesis
    by (simp add: Detach_def git_BranchExists ex f wt_record_def git_HasUncommittedChanges fp clean
        free wet git_CreateBranch cr git_Checkout ck)
qed

lemma Revert_git_model:
  assumes wf: "wf_repo r"
    and ex: "map_of (branches r) b \<noteq> None"
    and w: "w \<in> set (worktrees r)" "wbranch w = b" "wpath w \<noteq> cwd r"
    and clean: "TrimSpace (wstatus w) = []"
    and free: "map_of (branches r) (TempBranchName d b) = None"
    and listed: "branch_line_ok (TempBranchName d b)"
    and wet: "\<not> DryRun opts"
  shows "Revert git_model d b opts \<lparr>world = detached_repo r w (TempBranchName d b), issued = i\<rparr> =
    (Inr \<lparr>Success = True, Message = restored_message b, WorktreePath = wpath w,
          TempBranch = TempBranchName d b\<rparr>,
     \<lparr>world = r,
      issued = i @ [c_verify b, c_verify (TempBranchName d b), c_toplevel, c_list,
                    c_status (wpath w), c_checkout (wpath w) b, c_delete (TempBranchName d b)]\<rparr>)"
proof -
  let ?t = "TempBranchName d b"
  let ?r1 = "detached_repo r w ?t"
  let ?wts1 = "map (on_branch (wpath w) (whead w) ?t) (worktrees r)"
  let ?w1 = "w\<lparr>whead := whead w, wbranch := ?t\<rparr>"
  note facts = round_trip_facts [OF wf ex w free]
  have dp: "distinct (map wpath (worktrees r))"
    and en: "\<forall>x \<in> set (worktrees r). wf_entry x"
    and cw: "TrimSpace (cwd r @ [NL]) = cwd r"
    using wf by (auto simp: wf_repo_def)
  have tne: "?t \<noteq> []" using facts(1) by (simp add: TempBranchName_def)
  have b1: "map_of (branches ?r1) b = Some (whead w)"
    using facts(2,3) by (simp add: detached_repo_def map_of_snoc_other del: map_of_append)
  have t1: "map_of (branches ?r1) ?t = Some (whead w)"
    by (simp add: detached_repo_def map_of_snoc_new [OF free] del: map_of_append)
  have c1: "cwd ?r1 = cwd r" and w1: "worktrees ?r1 = ?wts1"
    by (simp_all add: detached_repo_def)
  have hd: "line_ok (''HEAD '' @ whead w)"
    using en w(1) by (auto simp: wf_entry_def)
  have en1: "\<forall>x \<in> set ?wts1. wf_entry x"
    using wf_entry_listing [OF en listed hd] .
  have nt: "\<forall>x \<in> set (worktrees r). wbranch x \<noteq> ?t"
    using facts(4) tne by auto
  have f: "FindWorktreeForBranch git_model ?t \<lparr>world = ?r1, issued = i'\<rparr> =
     (Inr (Some \<lparr>Path = wpath w, Branch = ?t\<rparr>), \<lparr>world = ?r1, issued = i' @ [c_toplevel, c_list]\<rparr>)" for i'
    by (simp only: git_FindWorktreeForBranch c1 w1 cw ParseWorktreeList_TrimSpace_listing [OF en1]
        FindWorktreeByBranch_switched [OF dp w(1,3) nt])
  have "on_branch (wpath w) (whead w) ?t w \<in> set ?wts1"
    using w(1) by (simp only: set_map) (rule imageI)
  then have in1: "on_branch (wpath w) (whead w) ?t w \<in> set ?wts1" .
  have dp1: "distinct (map wpath ?wts1)"
    using dp by (simp only: map_wpath_on_branch)
  have "find (\<lambda>x. wpath x = wpath (on_branch (wpath w) (whead w) ?t w)) ?wts1
          = Some (on_branch (wpath w) (whead w) ?t w)"
    using dp1 in1 by (rule find_path_unique)
  then have fp: "find (\<lambda>x. wpath x = wpath w) ?wts1 = Some ?w1"
    by (simp add: on_branch_def)
  have nb: "\<not> list_ex (\<lambda>w'. wpath w' \<noteq> wpath w \<and> wbranch w' = b) ?wts1"
  proof -
    have "\<not> (wpath y \<noteq> wpath w \<and> wbranch y = b)" if "y \<in> set ?wts1" for y
    proof -
      from that obtain x where x: "x \<in> set (worktrees r)"
        and y: "y = on_branch (wpath w) (whead w) ?t x" by auto
      show ?thesis
      proof (cases "wpath x = wpath w")
        case True
        then show ?thesis using y by simp
      next
        case False
        then have "y = x" using y by (simp add: on_branch_def)
        with facts(5) x False show ?thesis by auto
      qed
    qed
    then show ?thesis unfolding list_ex_iff by blast
  qed
  have e: "(\<lambda>w'. if wpath w' = wpath w then w'\<lparr>whead := whead w, wbranch := b\<rparr> else w')
      = on_branch (wpath w) (whead w) b"
    by (rule ext) (simp add: on_branch_def)
  have restore: "map ((\<lambda>w'. if wpath w' = wpath w then w'\<lparr>whead := whead w, wbranch := b\<rparr> else w')
      \<circ> on_branch (wpath w) (whead w) ?t) (worktrees r) = worktrees r"
    unfolding e using switch_back [OF dp w(1,2), of ?t] by (simp only: map_map)
  have ck: "git_checkout (wpath w) b ?r1 =
     (([], None), r\<lparr>branches := branches r @ [(?t, whead w)]\<rparr>)"
    using nb by (simp add: git_checkout_def w1 fp b1 restore) (simp add: detached_repo_def)
  have nd: "\<not> list_ex (\<lambda>x. wbranch x = ?t) (worktrees r)"
    using nt by (auto simp: list_ex_iff)
  have dl: "git_branch_delete ?t (r\<lparr>branches := branches r @ [(?t, whead w)]\<rparr>) =
     ((''Deleted branch '' @ ?t @ [NL], None), r)"
    using nd by (simp add: git_branch_delete_def map_of_snoc_new [OF free] filter_absent [OF free]
        del: map_of_append)
  show ?thesis
    by (simp add: Revert_def git_BranchExists b1 t1 f git_HasUncommittedChanges w1 fp clean wet
        git_Checkout ck git_DeleteBranch dl)
qed

lemmas eval_names = wf_repo_def wf_entry_def branch_line_ok_def line_ok_def
      MaxScanTokenSize_def no_trailing_space_def space_encodings_def suffix_to_prefix
      TrimSpace_def trim_left.simps trim_right.simps

lemma wf_repo_two: "wf_repo repo_two"
  by (simp add: wf_repo_def repo_two_def wf_entry_def branch_line_ok_def line_ok_def
      MaxScanTokenSize_def no_trailing_space_def space_encodings_def suffix_to_prefix
      TrimSpace_def trim_left.simps trim_right.simps)

lemma wf_repo_inside: "wf_repo repo_inside"
  by (simp add: wf_repo_def repo_inside_def wf_entry_def branch_line_ok_def line_ok_def
      MaxScanTokenSize_def no_trailing_space_def space_encodings_def suffix_to_prefix
      TrimSpace_def trim_left.simps trim_right.simps)

text \<open>
  Claim C3. Round trip on the repository model. In a well-formed repository, for a
  branch \<open>b\<close> that exists, is checked out in a worktree \<open>w\<close> other than the current one
  whose status is clean, and whose temp branch does not exist (and can be listed),
  \<open>Detach\<close> succeeds and leaves \<open>w\<close> on the temp branch; \<open>Revert\<close>, run right after,
  succeeds too, and the repository is then what it was: \<open>w\<close> is on \<open>b\<close> again and the
  temp branch does not exist.
\<close>

theorem Detach_Revert_round_trip:
  assumes "wf_repo r"
    and "map_of (branches r) b \<noteq> None"
    and "w \<in> set (worktrees r)" "wbranch w = b" "wpath w \<noteq> cwd r"
    and "TrimSpace (wstatus w) = []"
    and "map_of (branches r) (TempBranchName d b) = None"
    and "branch_line_ok (TempBranchName d b)"
    and "\<not> DryRun opts" "\<not> DryRun opts'"
  shows "\<exists>res s1 res' s2.
      Detach git_model d b opts \<lparr>world = r, issued = i\<rparr> = (Inr res, s1) \<and> Success res
      \<and> WorktreePath res = wpath w \<and> TempBranch res = TempBranchName d b
      \<and> map_of (branches (world s1)) (TempBranchName d b) \<noteq> None
      \<and> find (\<lambda>x. wpath x = wpath w) (worktrees (world s1)) = Some (w\<lparr>wbranch := TempBranchName d b\<rparr>)
      \<and> Revert git_model d b opts' s1 = (Inr res', s2) \<and> Success res'
      \<and> world s2 = r
      \<and> find (\<lambda>x. wpath x = wpath w) (worktrees (world s2)) = Some w
      \<and> map_of (branches (world s2)) (TempBranchName d b) = None"
proof -
  let ?t = "TempBranchName d b"
  let ?s1 = "\<lparr>world = detached_repo r w ?t,
      issued = i @ [c_verify b, c_toplevel, c_list, c_status (wpath w),
                    c_verify ?t, c_create (wpath w) ?t, c_checkout (wpath w) ?t]\<rparr>"
  have dp: "distinct (map wpath (worktrees r))"
    using assms(1) by (simp add: wf_repo_def)
  have D: "Detach git_model d b opts \<lparr>world = r, issued = i\<rparr> =
    (Inr \<lparr>Success = True, Message = detached_message b, WorktreePath = wpath w, TempBranch = ?t\<rparr>, ?s1)"
    using assms(1-7,9) by (rule Detach_git_model)
  have R: "Revert git_model d b opts' ?s1 =
    (Inr \<lparr>Success = True, Message = restored_message b, WorktreePath = wpath w, TempBranch = ?t\<rparr>,
     \<lparr>world = r, issued = issued ?s1 @ [c_verify b, c_verify ?t, c_toplevel, c_list,
                    c_status (wpath w), c_checkout (wpath w) b, c_delete ?t]\<rparr>)"
    using Revert_git_model [OF assms(1-8) assms(10)] by simp
  have t1: "map_of (branches (world ?s1)) ?t \<noteq> None"
    by (simp add: detached_repo_def map_of_snoc_new [OF assms(7)] del: map_of_append)
  have "on_branch (wpath w) (whead w) ?t w \<in> set (map (on_branch (wpath w) (whead w) ?t) (worktrees r))"
    using assms(3) by (simp only: set_map) (rule imageI)
  moreover have "distinct (map wpath (map (on_branch (wpath w) (whead w) ?t) (worktrees r)))"
    using dp by (simp only: map_wpath_on_branch)
  ultimately have "find (\<lambda>x. wpath x = wpath (on_branch (wpath w) (whead w) ?t w))
       (map (on_branch (wpath w) (whead w) ?t) (worktrees r)) = Some (on_branch (wpath w) (whead w) ?t w)"
    by (rule find_path_unique [rotated])
  then have w1: "find (\<lambda>x. wpath x = wpath w) (worktrees (world ?s1)) = Some (w\<lparr>wbranch := ?t\<rparr>)"
    by (simp add: detached_repo_def on_branch_def)
  have w2: "find (\<lambda>x. wpath x = wpath w) (worktrees r) = Some w"
    using dp assms(3) by (rule find_path_unique)
  let ?res = "\<lparr>Success = True, Message = detached_message b, WorktreePath = wpath w, TempBranch = ?t\<rparr>"
  let ?res' = "\<lparr>Success = True, Message = restored_message b, WorktreePath = wpath w, TempBranch = ?t\<rparr>"
  let ?s2 = "\<lparr>world = r, issued = issued ?s1 @ [c_verify b, c_verify ?t, c_toplevel, c_list,
                    c_status (wpath w), c_checkout (wpath w) b, c_delete ?t]\<rparr>"
  have "Detach git_model d b opts \<lparr>world = r, issued = i\<rparr> = (Inr ?res, ?s1) \<and> Success ?res
      \<and> WorktreePath ?res = wpath w \<and> TempBranch ?res = ?t
      \<and> map_of (branches (world ?s1)) ?t \<noteq> None
      \<and> find (\<lambda>x. wpath x = wpath w) (worktrees (world ?s1)) = Some (w\<lparr>wbranch := ?t\<rparr>)
      \<and> Revert git_model d b opts' ?s1 = (Inr ?res', ?s2) \<and> Success ?res'
      \<and> world ?s2 = r
      \<and> find (\<lambda>x. wpath x = wpath w) (worktrees (world ?s2)) = Some w
      \<and> map_of (branches (world ?s2)) ?t = None"
    using D R t1 w1 w2 assms(7) by simp
  then show ?thesis by blast
qed

theorem Detach_Revert_round_trip_witness:
  "\<exists>res s1 res' s2.
      Detach git_model NewDetacher ''feature-x'' default_opts \<lparr>world = repo_two, issued = []\<rparr> = (Inr res, s1)
      \<and> Success res \<and> TempBranch res = ''feature-x__wt_detach''
      \<and> Revert git_model NewDetacher ''feature-x'' default_opts s1 = (Inr res', s2) \<and> Success res'
      \<and> world s2 = repo_two"
proof -
  have h: "map_of (branches repo_two) ''feature-x'' \<noteq> None"
    "\<lparr>wpath = ''/wt'', whead = ''c1'', wbranch = ''feature-x'', wstatus = []\<rparr> \<in> set (worktrees repo_two)"
    "wbranch \<lparr>wpath = ''/wt'', whead = ''c1'', wbranch = ''feature-x'', wstatus = []\<rparr> = ''feature-x''"
    "wpath \<lparr>wpath = ''/wt'', whead = ''c1'', wbranch = ''feature-x'', wstatus = []\<rparr> \<noteq> cwd repo_two"
    "TrimSpace (wstatus \<lparr>wpath = ''/wt'', whead = ''c1'', wbranch = ''feature-x'', wstatus = []\<rparr>) = []"
    "map_of (branches repo_two) (TempBranchName NewDetacher ''feature-x'') = None"
    "branch_line_ok (TempBranchName NewDetacher ''feature-x'')"
    "\<not> DryRun default_opts"
    by (simp_all add: repo_two_def TrimSpace_Nil TempBranchName_def NewDetacher_def DefaultSuffix_def
        default_opts_def branch_line_ok_def line_ok_def MaxScanTokenSize_def no_trailing_space_def
        space_encodings_def suffix_to_prefix)
  from Detach_Revert_round_trip [OF wf_repo_two h(1-8) h(8), of "[]"]
  show ?thesis
    by (simp add: TempBranchName_def NewDetacher_def DefaultSuffix_def) blast
qed

lemma wf_repo_orphan: "wf_repo repo_orphan"
  by (simp add: repo_orphan_def eval_names)

lemma wf_repo_dirty: "wf_repo repo_dirty"
  by (simp add: repo_dirty_def eval_names)

lemma git_lookup:
  assumes "wf_repo r"
  shows "FindWorktreeForBranch git_model b \<lparr>world = r, issued = i\<rparr> =
     (Inr (FindWorktreeByBranch (map wt_record (worktrees r)) b (cwd r)),
      \<lparr>world = r, issued = i @ [c_toplevel, c_list]\<rparr>)"
proof -
  have "\<forall>x \<in> set (worktrees r). wf_entry x" "TrimSpace (cwd r @ [NL]) = cwd r"
    using assms by (auto simp: wf_repo_def)
  then show ?thesis
    by (simp only: git_FindWorktreeForBranch ParseWorktreeList_TrimSpace_listing)
qed

lemma git_current:
  assumes "wf_repo r"
  shows "GetCurrentWorktreePath git_model \<lparr>world = r, issued = i\<rparr> =
     (Inr (cwd r), \<lparr>world = r, issued = i @ [c_toplevel]\<rparr>)"
  using assms by (simp add: git_GetCurrentWorktreePath wf_repo_def)

lemma git_list:
  assumes "wf_repo r"
  shows "ListWorktrees git_model \<lparr>world = r, issued = i\<rparr> =
     (Inr (map wt_record (worktrees r)), \<lparr>world = r, issued = i @ [c_list]\<rparr>)"
proof -
  have "\<forall>x \<in> set (worktrees r). wf_entry x"
    using assms by (auto simp: wf_repo_def)
  then show ?thesis
    by (simp only: git_ListWorktrees ParseWorktreeList_TrimSpace_listing)
qed

lemma repo_two_steps:
  "BranchExists git_model ''feature-x'' \<lparr>world = repo_two, issued = i\<rparr> =
     (True, \<lparr>world = repo_two, issued = i @ [c_verify ''feature-x'']\<rparr>)"
  "FindWorktreeForBranch git_model ''feature-x'' \<lparr>world = repo_two, issued = i\<rparr> =
     (Inr (Some \<lparr>Path = ''/wt'', Branch = ''feature-x''\<rparr>),
      \<lparr>world = repo_two, issued = i @ [c_toplevel, c_list]\<rparr>)"
  "HasUncommittedChanges git_model ''/wt'' \<lparr>world = repo_two, issued = i\<rparr> =
     (False, \<lparr>world = repo_two, issued = i @ [c_status ''/wt'']\<rparr>)"
  "BranchExists git_model ''feature-x__wt_detach'' \<lparr>world = repo_two, issued = i\<rparr> =
     (False, \<lparr>world = repo_two, issued = i @ [c_verify ''feature-x__wt_detach'']\<rparr>)"
proof -
  show "BranchExists git_model ''feature-x'' \<lparr>world = repo_two, issued = i\<rparr> =
     (True, \<lparr>world = repo_two, issued = i @ [c_verify ''feature-x'']\<rparr>)"
    by (simp add: git_BranchExists) (simp add: repo_two_def)
  show "FindWorktreeForBranch git_model ''feature-x'' \<lparr>world = repo_two, issued = i\<rparr> =
     (Inr (Some \<lparr>Path = ''/wt'', Branch = ''feature-x''\<rparr>),
      \<lparr>world = repo_two, issued = i @ [c_toplevel, c_list]\<rparr>)"
    by (simp add: git_lookup [OF wf_repo_two]) (simp add: repo_two_def wt_record_def)
  show "HasUncommittedChanges git_model ''/wt'' \<lparr>world = repo_two, issued = i\<rparr> =
     (False, \<lparr>world = repo_two, issued = i @ [c_status ''/wt'']\<rparr>)"
    by (simp add: git_HasUncommittedChanges) (simp add: repo_two_def TrimSpace_Nil)
  show "BranchExists git_model ''feature-x__wt_detach'' \<lparr>world = repo_two, issued = i\<rparr> =
     (False, \<lparr>world = repo_two, issued = i @ [c_verify ''feature-x__wt_detach'']\<rparr>)"
    by (simp add: git_BranchExists) (simp add: repo_two_def)
qed

lemma Detach_dry_run_repo_two:
  "Detach git_model NewDetacher ''feature-x'' dry_opts \<lparr>world = repo_two, issued = []\<rparr> =
     (Inr \<lparr>Success = True, Message = ''dry-run'', WorktreePath = ''/wt'',
           TempBranch = ''feature-x__wt_detach''\<rparr>,
      \<lparr>world = repo_two,
       issued = [c_verify ''feature-x'', c_toplevel, c_list, c_status ''/wt'',
                 c_verify ''feature-x__wt_detach'']\<rparr>)"
  by (simp add: Detach_def repo_two_steps TempBranchName_def NewDetacher_def DefaultSuffix_def
      dry_opts_def)

theorem Detach_no_mutation_before_create_witness:
  "Detach git_model NewDetacher ''feature-x'' dry_opts \<lparr>world = repo_two, issued = []\<rparr> =
     (Inr \<lparr>Success = True, Message = ''dry-run'', WorktreePath = ''/wt'',
           TempBranch = ''feature-x__wt_detach''\<rparr>,
      \<lparr>world = repo_two,
       issued = [c_verify ''feature-x'', c_toplevel, c_list, c_status ''/wt'',
                 c_verify ''feature-x__wt_detach'']\<rparr>)
   \<and> filter mutating
        (issued_by \<lparr>world = repo_two, issued = []\<rparr>
           \<lparr>world = repo_two,
            issued = [c_verify ''feature-x'', c_toplevel, c_list, c_status ''/wt'',
                      c_verify ''feature-x__wt_detach'']\<rparr>) = []"
  using Detach_no_mutation_before_create [OF Detach_dry_run_repo_two] Detach_dry_run_repo_two
  by simp

section \<open>Examples on the repository model and on scripts\<close>

lemma wf_repo_detached: "wf_repo repo_detached"
  by (simp add: repo_detached_def eval_names)

lemma default_temp_name [simp]: "TempBranchName NewDetacher b = b @ ''__wt_detach''"
  by (simp add: TempBranchName_def NewDetacher_def DefaultSuffix_def)

text \<open>Steps on the repository in which the command runs from inside the detached worktree.\<close>

lemma repo_inside_steps:
  "BranchExists git_model ''feature-x'' \<lparr>world = repo_inside, issued = i\<rparr> =
     (True, \<lparr>world = repo_inside, issued = i @ [c_verify ''feature-x'']\<rparr>)"
  "BranchExists git_model ''feature-x__wt_detach'' \<lparr>world = repo_inside, issued = i\<rparr> =
     (True, \<lparr>world = repo_inside, issued = i @ [c_verify ''feature-x__wt_detach'']\<rparr>)"
  "FindWorktreeForBranch git_model ''feature-x__wt_detach'' \<lparr>world = repo_inside, issued = i\<rparr> =
     (Inr None, \<lparr>world = repo_inside, issued = i @ [c_toplevel, c_list]\<rparr>)"
  "DeleteBranch git_model ''feature-x__wt_detach'' \<lparr>world = repo_inside, issued = i\<rparr> =
     (Some (DeleteFailed ''feature-x__wt_detach''
              (ExecError ''error: cannot delete branch checked out in a worktree'')),
      \<lparr>world = repo_inside, issued = i @ [c_delete ''feature-x__wt_detach'']\<rparr>)"
proof -
  show "BranchExists git_model ''feature-x'' \<lparr>world = repo_inside, issued = i\<rparr> =
     (True, \<lparr>world = repo_inside, issued = i @ [c_verify ''feature-x'']\<rparr>)"
    by (simp add: git_BranchExists) (simp add: repo_inside_def)
  show "BranchExists git_model ''feature-x__wt_detach'' \<lparr>world = repo_inside, issued = i\<rparr> =
     (True, \<lparr>world = repo_inside, issued = i @ [c_verify ''feature-x__wt_detach'']\<rparr>)"
    by (simp add: git_BranchExists) (simp add: repo_inside_def)
  show "FindWorktreeForBranch git_model ''feature-x__wt_detach'' \<lparr>world = repo_inside, issued = i\<rparr> =
     (Inr None, \<lparr>world = repo_inside, issued = i @ [c_toplevel, c_list]\<rparr>)"
    by (simp add: git_lookup [OF wf_repo_inside]) (simp add: repo_inside_def wt_record_def)
  show "DeleteBranch git_model ''feature-x__wt_detach'' \<lparr>world = repo_inside, issued = i\<rparr> =
     (Some (DeleteFailed ''feature-x__wt_detach''
              (ExecError ''error: cannot delete branch checked out in a worktree'')),
      \<lparr>world = repo_inside, issued = i @ [c_delete ''feature-x__wt_detach'']\<rparr>)"
    by (simp add: git_DeleteBranch) (simp add: repo_inside_def git_branch_delete_def git_fail_def)
qed

theorem Revert_current_worktree_counterexample:
  "fst (GetCurrentWorktreePath git_model \<lparr>world = repo_inside, issued = []\<rparr>) = Inr ''/wt''
   \<and> fst (ListWorktrees git_model \<lparr>world = repo_inside, issued = []\<rparr>) =
       Inr [\<lparr>Path = ''/repo'', Branch = ''main''\<rparr>,
            \<lparr>Path = ''/wt'', Branch = ''feature-x__wt_detach''\<rparr>]
   \<and> Revert git_model NewDetacher ''feature-x'' dry_opts \<lparr>world = repo_inside, issued = []\<rparr> =
       (Inr \<lparr>Success = True, Message = ''dry-run: would delete branch'', WorktreePath = [],
             TempBranch = ''feature-x__wt_detach''\<rparr>,
        \<lparr>world = repo_inside,
         issued = [c_verify ''feature-x'', c_verify ''feature-x__wt_detach'', c_toplevel, c_list]\<rparr>)"
proof -
  have "fst (GetCurrentWorktreePath git_model \<lparr>world = repo_inside, issued = []\<rparr>) = Inr ''/wt''"
    by (simp add: git_current [OF wf_repo_inside]) (simp add: repo_inside_def)
  moreover have "fst (ListWorktrees git_model \<lparr>world = repo_inside, issued = []\<rparr>) =
       Inr [\<lparr>Path = ''/repo'', Branch = ''main''\<rparr>,
            \<lparr>Path = ''/wt'', Branch = ''feature-x__wt_detach''\<rparr>]"
    by (simp add: git_list [OF wf_repo_inside]) (simp add: repo_inside_def wt_record_def)
  moreover have "Revert git_model NewDetacher ''feature-x'' dry_opts \<lparr>world = repo_inside, issued = []\<rparr> =
       (Inr \<lparr>Success = True, Message = ''dry-run: would delete branch'', WorktreePath = [],
             TempBranch = ''feature-x__wt_detach''\<rparr>,
        \<lparr>world = repo_inside,
         issued = [c_verify ''feature-x'', c_verify ''feature-x__wt_detach'', c_toplevel, c_list]\<rparr>)"
    by (simp add: Revert_def repo_inside_steps dry_opts_def)
  ultimately show ?thesis by simp
qed

theorem Revert_unattached_delete_fails_counterexample:
  "fst (BranchExists git_model ''feature-x__wt_detach'' \<lparr>world = repo_inside, issued = []\<rparr>)
   \<and> fst (FindWorktreeForBranch git_model ''feature-x__wt_detach''
            \<lparr>world = repo_inside, issued = []\<rparr>) = Inr None
   \<and> \<not> DryRun default_opts
   \<and> Revert git_model NewDetacher ''feature-x'' default_opts \<lparr>world = repo_inside, issued = []\<rparr> =
       (Inl (DeleteFailed ''feature-x__wt_detach''
               (ExecError ''error: cannot delete branch checked out in a worktree'')),
        \<lparr>world = repo_inside,
         issued = [c_verify ''feature-x'', c_verify ''feature-x__wt_detach'', c_toplevel, c_list,
                   c_delete ''feature-x__wt_detach'']\<rparr>)"
  by (simp add: Revert_def repo_inside_steps default_opts_def)

text \<open>Steps on the repository with a left-over temp branch.\<close>

lemma repo_orphan_steps:
  "BranchExists git_model ''feature-o'' \<lparr>world = repo_orphan, issued = i\<rparr> =
     (True, \<lparr>world = repo_orphan, issued = i @ [c_verify ''feature-o'']\<rparr>)"
  "BranchExists git_model ''feature-o__wt_detach'' \<lparr>world = repo_orphan, issued = i\<rparr> =
     (True, \<lparr>world = repo_orphan, issued = i @ [c_verify ''feature-o__wt_detach'']\<rparr>)"
  "FindWorktreeForBranch git_model ''feature-o__wt_detach'' \<lparr>world = repo_orphan, issued = i\<rparr> =
     (Inr None, \<lparr>world = repo_orphan, issued = i @ [c_toplevel, c_list]\<rparr>)"
  "DeleteBranch git_model ''feature-o__wt_detach'' \<lparr>world = repo_orphan, issued = i\<rparr> =
     (None,
      \<lparr>world = repo_orphan\<lparr>branches := [(''main'', ''c0''), (''feature-o'', ''c1'')]\<rparr>,
       issued = i @ [c_delete ''feature-o__wt_detach'']\<rparr>)"
proof -
  show "BranchExists git_model ''feature-o'' \<lparr>world = repo_orphan, issued = i\<rparr> =
     (True, \<lparr>world = repo_orphan, issued = i @ [c_verify ''feature-o'']\<rparr>)"
    by (simp add: git_BranchExists) (simp add: repo_orphan_def)
  show "BranchExists git_model ''feature-o__wt_detach'' \<lparr>world = repo_orphan, issued = i\<rparr> =
     (True, \<lparr>world = repo_orphan, issued = i @ [c_verify ''feature-o__wt_detach'']\<rparr>)"
    by (simp add: git_BranchExists) (simp add: repo_orphan_def)
  show "FindWorktreeForBranch git_model ''feature-o__wt_detach'' \<lparr>world = repo_orphan, issued = i\<rparr> =
     (Inr None, \<lparr>world = repo_orphan, issued = i @ [c_toplevel, c_list]\<rparr>)"
    by (simp add: git_lookup [OF wf_repo_orphan]) (simp add: repo_orphan_def wt_record_def)
  show "DeleteBranch git_model ''feature-o__wt_detach'' \<lparr>world = repo_orphan, issued = i\<rparr> =
     (None,
      \<lparr>world = repo_orphan\<lparr>branches := [(''main'', ''c0''), (''feature-o'', ''c1'')]\<rparr>,
       issued = i @ [c_delete ''feature-o__wt_detach'']\<rparr>)"
    by (simp add: git_DeleteBranch) (simp add: repo_orphan_def git_branch_delete_def)
qed

lemma Revert_repo_orphan:
  "Revert git_model NewDetacher ''feature-o'' default_opts \<lparr>world = repo_orphan, issued = []\<rparr> =
     (Inr \<lparr>Success = True, Message = deleted_message ''feature-o__wt_detach'', WorktreePath = [],
           TempBranch = ''feature-o__wt_detach''\<rparr>,
      \<lparr>world = repo_orphan\<lparr>branches := [(''main'', ''c0''), (''feature-o'', ''c1'')]\<rparr>,
       issued = [c_verify ''feature-o'', c_verify ''feature-o__wt_detach'', c_toplevel, c_list,
                 c_delete ''feature-o__wt_detach'']\<rparr>)"
  by (simp add: Revert_def repo_orphan_steps default_opts_def)

theorem Revert_unattached_only_deletes_witness:
  "Revert git_model NewDetacher ''feature-o'' default_opts \<lparr>world = repo_orphan, issued = []\<rparr> =
     (Inr \<lparr>Success = True, Message = deleted_message ''feature-o__wt_detach'', WorktreePath = [],
           TempBranch = ''feature-o__wt_detach''\<rparr>,
      \<lparr>world = repo_orphan\<lparr>branches := [(''main'', ''c0''), (''feature-o'', ''c1'')]\<rparr>,
       issued = [c_verify ''feature-o'', c_verify ''feature-o__wt_detach'', c_toplevel, c_list,
                 c_delete ''feature-o__wt_detach'']\<rparr>)
   \<and> filter mutating
        (issued_by \<lparr>world = repo_orphan, issued = []\<rparr>
           \<lparr>world = repo_orphan\<lparr>branches := [(''main'', ''c0''), (''feature-o'', ''c1'')]\<rparr>,
            issued = [c_verify ''feature-o'', c_verify ''feature-o__wt_detach'', c_toplevel, c_list,
                      c_delete ''feature-o__wt_detach'']\<rparr>)
       = [c_delete ''feature-o__wt_detach'']"
proof -
  have h: "BranchExists git_model ''feature-o'' \<lparr>world = repo_orphan, issued = []\<rparr> =
      (True, \<lparr>world = repo_orphan, issued = [c_verify ''feature-o'']\<rparr>)"
    "BranchExists git_model (TempBranchName NewDetacher ''feature-o'')
       \<lparr>world = repo_orphan, issued = [c_verify ''feature-o'']\<rparr> =
      (True, \<lparr>world = repo_orphan, issued = [c_verify ''feature-o'', c_verify ''feature-o__wt_detach'']\<rparr>)"
    "FindWorktreeForBranch git_model (TempBranchName NewDetacher ''feature-o'')
       \<lparr>world = repo_orphan, issued = [c_verify ''feature-o'', c_verify ''feature-o__wt_detach'']\<rparr> =
      (Inr None, \<lparr>world = repo_orphan,
         issued = [c_verify ''feature-o'', c_verify ''feature-o__wt_detach'', c_toplevel, c_list]\<rparr>)"
    by (simp_all add: repo_orphan_steps)
  have nd: "\<not> DryRun default_opts" by (simp add: default_opts_def)
  have "filter mutating
        (issued_by \<lparr>world = repo_orphan, issued = []\<rparr>
           \<lparr>world = repo_orphan\<lparr>branches := [(''main'', ''c0''), (''feature-o'', ''c1'')]\<rparr>,
            issued = [c_verify ''feature-o'', c_verify ''feature-o__wt_detach'', c_toplevel, c_list,
                      c_delete ''feature-o__wt_detach'']\<rparr>)
       = [c_delete (TempBranchName NewDetacher ''feature-o'')]"
    using Revert_unattached_only_deletes [OF h Revert_repo_orphan] nd by blast
  then show ?thesis
    using Revert_repo_orphan by simp
qed

text \<open>Steps on the repository after a detach, with the command run from the main worktree.\<close>

lemma repo_detached_steps:
  "BranchExists git_model ''feature-x'' \<lparr>world = repo_detached, issued = i\<rparr> =
     (True, \<lparr>world = repo_detached, issued = i @ [c_verify ''feature-x'']\<rparr>)"
  "BranchExists git_model ''feature-x__wt_detach'' \<lparr>world = repo_detached, issued = i\<rparr> =
     (True, \<lparr>world = repo_detached, issued = i @ [c_verify ''feature-x__wt_detach'']\<rparr>)"
  "GetCurrentWorktreePath git_model \<lparr>world = repo_detached, issued = i\<rparr> =
     (Inr ''/repo'', \<lparr>world = repo_detached, issued = i @ [c_toplevel]\<rparr>)"
  "ListWorktrees git_model \<lparr>world = repo_detached, issued = i\<rparr> =
     (Inr [\<lparr>Path = ''/repo'', Branch = ''main''\<rparr>,
           \<lparr>Path = ''/wt'', Branch = ''feature-x__wt_detach''\<rparr>],
      \<lparr>world = repo_detached, issued = i @ [c_list]\<rparr>)"
  "HasUncommittedChanges git_model ''/wt'' \<lparr>world = repo_detached, issued = i\<rparr> =
     (False, \<lparr>world = repo_detached, issued = i @ [c_status ''/wt'']\<rparr>)"
  "Checkout git_model ''/wt'' ''feature-x'' \<lparr>world = repo_detached, issued = i\<rparr> =
     (None,
      \<lparr>world = repo_two\<lparr>branches := branches repo_detached\<rparr>,
       issued = i @ [c_checkout ''/wt'' ''feature-x'']\<rparr>)"
  "DeleteBranch git_model ''feature-x__wt_detach''
     \<lparr>world = repo_two\<lparr>branches := branches repo_detached\<rparr>, issued = i\<rparr> =
     (None, \<lparr>world = repo_two, issued = i @ [c_delete ''feature-x__wt_detach'']\<rparr>)"
proof -
  show "BranchExists git_model ''feature-x'' \<lparr>world = repo_detached, issued = i\<rparr> =
     (True, \<lparr>world = repo_detached, issued = i @ [c_verify ''feature-x'']\<rparr>)"
    by (simp add: git_BranchExists) (simp add: repo_detached_def)
  show "BranchExists git_model ''feature-x__wt_detach'' \<lparr>world = repo_detached, issued = i\<rparr> =
     (True, \<lparr>world = repo_detached, issued = i @ [c_verify ''feature-x__wt_detach'']\<rparr>)"
    by (simp add: git_BranchExists) (simp add: repo_detached_def)
  show "GetCurrentWorktreePath git_model \<lparr>world = repo_detached, issued = i\<rparr> =
     (Inr ''/repo'', \<lparr>world = repo_detached, issued = i @ [c_toplevel]\<rparr>)"
    by (simp add: git_current [OF wf_repo_detached]) (simp add: repo_detached_def)
  show "ListWorktrees git_model \<lparr>world = repo_detached, issued = i\<rparr> =
     (Inr [\<lparr>Path = ''/repo'', Branch = ''main''\<rparr>,
           \<lparr>Path = ''/wt'', Branch = ''feature-x__wt_detach''\<rparr>],
      \<lparr>world = repo_detached, issued = i @ [c_list]\<rparr>)"
    by (simp add: git_list [OF wf_repo_detached]) (simp add: repo_detached_def wt_record_def)
  show "HasUncommittedChanges git_model ''/wt'' \<lparr>world = repo_detached, issued = i\<rparr> =
     (False, \<lparr>world = repo_detached, issued = i @ [c_status ''/wt'']\<rparr>)"
    by (simp add: git_HasUncommittedChanges) (simp add: repo_detached_def TrimSpace_Nil)
  show "Checkout git_model ''/wt'' ''feature-x'' \<lparr>world = repo_detached, issued = i\<rparr> =
     (None,
      \<lparr>world = repo_two\<lparr>branches := branches repo_detached\<rparr>,
       issued = i @ [c_checkout ''/wt'' ''feature-x'']\<rparr>)"
    by (simp add: git_Checkout) (simp add: repo_detached_def repo_two_def git_checkout_def)
  show "DeleteBranch git_model ''feature-x__wt_detach''
     \<lparr>world = repo_two\<lparr>branches := branches repo_detached\<rparr>, issued = i\<rparr> =
     (None, \<lparr>world = repo_two, issued = i @ [c_delete ''feature-x__wt_detach'']\<rparr>)"
    by (simp add: git_DeleteBranch) (simp add: repo_detached_def repo_two_def git_branch_delete_def)
qed

lemma Revert_repo_detached:
  "Revert git_model NewDetacher ''feature-x'' default_opts \<lparr>world = repo_detached, issued = []\<rparr> =
     (Inr \<lparr>Success = True, Message = restored_message ''feature-x'', WorktreePath = ''/wt'',
           TempBranch = ''feature-x__wt_detach''\<rparr>,
      \<lparr>world = repo_two,
       issued = [c_verify ''feature-x'', c_verify ''feature-x__wt_detach'', c_toplevel, c_list,
                 c_status ''/wt'', c_checkout ''/wt'' ''feature-x'',
                 c_delete ''feature-x__wt_detach'']\<rparr>)"
  by (simp add: Revert_def FindWorktreeForBranch_def repo_detached_steps default_opts_def)

theorem Revert_lookup_excludes_current_witness:
  "FindWorktreeByBranch
     [\<lparr>Path = ''/repo'', Branch = ''main''\<rparr>, \<lparr>Path = ''/wt'', Branch = ''feature-x__wt_detach''\<rparr>]
     ''feature-x__wt_detach'' ''/repo'' = Some \<lparr>Path = ''/wt'', Branch = ''feature-x__wt_detach''\<rparr>
   \<and> Revert git_model NewDetacher ''feature-x'' default_opts \<lparr>world = repo_detached, issued = []\<rparr> =
     (Inr \<lparr>Success = True, Message = restored_message ''feature-x'', WorktreePath = ''/wt'',
           TempBranch = ''feature-x__wt_detach''\<rparr>,
      \<lparr>world = repo_two,
       issued = [c_verify ''feature-x'', c_verify ''feature-x__wt_detach'', c_toplevel, c_list,
                 c_status ''/wt'', c_checkout ''/wt'' ''feature-x'',
                 c_delete ''feature-x__wt_detach'']\<rparr>)"
proof -
  have h: "BranchExists git_model ''feature-x'' \<lparr>world = repo_detached, issued = []\<rparr> =
      (True, \<lparr>world = repo_detached, issued = [c_verify ''feature-x'']\<rparr>)"
    "BranchExists git_model (TempBranchName NewDetacher ''feature-x'')
       \<lparr>world = repo_detached, issued = [c_verify ''feature-x'']\<rparr> =
      (True, \<lparr>world = repo_detached,
              issued = [c_verify ''feature-x'', c_verify ''feature-x__wt_detach'']\<rparr>)"
    "GetCurrentWorktreePath git_model
       \<lparr>world = repo_detached, issued = [c_verify ''feature-x'', c_verify ''feature-x__wt_detach'']\<rparr> =
      (Inr ''/repo'', \<lparr>world = repo_detached,
              issued = [c_verify ''feature-x'', c_verify ''feature-x__wt_detach'', c_toplevel]\<rparr>)"
    "ListWorktrees git_model
       \<lparr>world = repo_detached,
        issued = [c_verify ''feature-x'', c_verify ''feature-x__wt_detach'', c_toplevel]\<rparr> =
      (Inr [\<lparr>Path = ''/repo'', Branch = ''main''\<rparr>,
            \<lparr>Path = ''/wt'', Branch = ''feature-x__wt_detach''\<rparr>],
       \<lparr>world = repo_detached,
        issued = [c_verify ''feature-x'', c_verify ''feature-x__wt_detach'', c_toplevel, c_list]\<rparr>)"
    by (simp_all add: repo_detached_steps)
  have "\<exists>w \<in> set [\<lparr>Path = ''/repo'', Branch = ''main''\<rparr>,
                    \<lparr>Path = ''/wt'', Branch = ''feature-x__wt_detach''\<rparr>].
          Branch w = TempBranchName NewDetacher ''feature-x'' \<and> Path w \<noteq> ''/repo''"
    by simp
  then have "\<exists>wt. FindWorktreeByBranch
     [\<lparr>Path = ''/repo'', Branch = ''main''\<rparr>, \<lparr>Path = ''/wt'', Branch = ''feature-x__wt_detach''\<rparr>]
     (TempBranchName NewDetacher ''feature-x'') ''/repo'' = Some wt
       \<and> Branch wt = TempBranchName NewDetacher ''feature-x'' \<and> Path wt \<noteq> ''/repo''"
    using Revert_lookup_excludes_current [OF h Revert_repo_detached] by blast
  then show ?thesis
    using Revert_repo_detached by simp
qed

text \<open>The scripted runner.\<close>

lemma scripted_Run:
  "Run scripted args \<lparr>world = (out, err) # rest, issued = i\<rparr> =
     ((TrimSpace out, err), \<lparr>world = rest, issued = i @ [args]\<rparr>)"
  by (simp add: Run_def)

lemma scripted_RunInDir:
  "RunInDir scripted dir args \<lparr>world = (out, err) # rest, issued = i\<rparr> =
     ((TrimSpace out, err), \<lparr>world = rest, issued = i @ [''-C'' # dir # args]\<rparr>)"
  by (simp add: RunInDir_def)

lemma TrimSpace_repo_path: "TrimSpace (''/repo'' @ [NL]) = ''/repo''"
  by (simp add: TrimSpace_def trim_left.simps trim_right.simps space_encodings_def suffix_to_prefix)

lemma rollback_lookup:
  "FindWorktreeForBranch scripted ''feature-x''
     \<lparr>world = (''/repo'' @ [NL], None) # (concat (map render_worktree (worktrees repo_two)), None) # rest,
      issued = i\<rparr> =
   (Inr (Some \<lparr>Path = ''/wt'', Branch = ''feature-x''\<rparr>),
    \<lparr>world = rest, issued = i @ [c_toplevel, c_list]\<rparr>)"
proof -
  have "\<forall>x \<in> set (worktrees repo_two). wf_entry x"
    using wf_repo_two by (auto simp: wf_repo_def)
  then have "ParseWorktreeList (TrimSpace (concat (map render_worktree (worktrees repo_two))))
     = map wt_record (worktrees repo_two)"
    by (rule ParseWorktreeList_TrimSpace_listing)
  then show ?thesis
    by (simp add: FindWorktreeForBranch_def GetCurrentWorktreePath_def ListWorktrees_def
        scripted_Run TrimSpace_repo_path [simplified])
       (simp add: repo_two_def wt_record_def)
qed

theorem Detach_rollback_witness:
  "Detach scripted NewDetacher ''feature-x'' default_opts \<lparr>world = rollback_script, issued = []\<rparr> =
     (Inl (CheckoutFailed ''feature-x__wt_detach'' ''/wt'' (ExecError ''exit status 1'')),
      \<lparr>world = [],
       issued = [c_verify ''feature-x'', c_toplevel, c_list, c_status ''/wt'',
                 c_verify ''feature-x__wt_detach'', c_create ''/wt'' ''feature-x__wt_detach'',
                 c_checkout ''/wt'' ''feature-x__wt_detach'', c_delete ''feature-x__wt_detach'']\<rparr>)"
proof -
  let ?l = "(concat (map render_worktree (worktrees repo_two)), None :: exec_error option)"
  let ?ok = "([] :: string, None :: exec_error option)"
  let ?e128 = "([] :: string, Some (ExecError ''exit status 128''))"
  let ?e1 = "([] :: string, Some (ExecError ''exit status 1''))"
  let ?t = "TempBranchName NewDetacher ''feature-x''"
  let ?wt = "\<lparr>Path = ''/wt'', Branch = ''feature-x''\<rparr>"
  have 1: "BranchExists scripted ''feature-x'' \<lparr>world = rollback_script, issued = []\<rparr> =
      (True, \<lparr>world = [(''/repo'' @ [NL], None), ?l, ?ok, ?e128, ?ok, ?e1, ?e1],
              issued = [c_verify ''feature-x'']\<rparr>)"
    by (simp add: BranchExists_def rollback_script_def scripted_Run)
  have 2: "FindWorktreeForBranch scripted ''feature-x''
       \<lparr>world = [(''/repo'' @ [NL], None), ?l, ?ok, ?e128, ?ok, ?e1, ?e1],
        issued = [c_verify ''feature-x'']\<rparr> =
      (Inr (Some ?wt), \<lparr>world = [?ok, ?e128, ?ok, ?e1, ?e1],
              issued = [c_verify ''feature-x'', c_toplevel, c_list]\<rparr>)"
    using rollback_lookup [of "[?ok, ?e128, ?ok, ?e1, ?e1]" "[c_verify ''feature-x'']"] by simp
  have 3: "HasUncommittedChanges scripted (Path ?wt)
       \<lparr>world = [?ok, ?e128, ?ok, ?e1, ?e1], issued = [c_verify ''feature-x'', c_toplevel, c_list]\<rparr> =
      (False, \<lparr>world = [?e128, ?ok, ?e1, ?e1],
              issued = [c_verify ''feature-x'', c_toplevel, c_list, c_status ''/wt'']\<rparr>)"
    by (simp add: HasUncommittedChanges_def scripted_RunInDir TrimSpace_Nil)
  have 4: "\<not> False \<or> Force default_opts" by simp
  have 5: "BranchExists scripted ?t
       \<lparr>world = [?e128, ?ok, ?e1, ?e1],
        issued = [c_verify ''feature-x'', c_toplevel, c_list, c_status ''/wt'']\<rparr> =
      (False, \<lparr>world = [?ok, ?e1, ?e1],
              issued = [c_verify ''feature-x'', c_toplevel, c_list, c_status ''/wt'',
                        c_verify ''feature-x__wt_detach'']\<rparr>)"
    by (simp add: BranchExists_def scripted_Run)
  have 6: "\<not> DryRun default_opts" by (simp add: default_opts_def)
  have 7: "CreateBranch scripted ?t (Path ?wt)
       \<lparr>world = [?ok, ?e1, ?e1],
        issued = [c_verify ''feature-x'', c_toplevel, c_list, c_status ''/wt'',
                  c_verify ''feature-x__wt_detach'']\<rparr> =
      (None, \<lparr>world = [?e1, ?e1],
              issued = [c_verify ''feature-x'', c_toplevel, c_list, c_status ''/wt'',
                        c_verify ''feature-x__wt_detach'', c_create ''/wt'' ''feature-x__wt_detach'']\<rparr>)"
    by (simp add: CreateBranch_def scripted_RunInDir)
  have 8: "Checkout scripted (Path ?wt) ?t
       \<lparr>world = [?e1, ?e1],
        issued = [c_verify ''feature-x'', c_toplevel, c_list, c_status ''/wt'',
                  c_verify ''feature-x__wt_detach'', c_create ''/wt'' ''feature-x__wt_detach'']\<rparr> =
      (Some (CheckoutFailed ''feature-x__wt_detach'' ''/wt'' (ExecError ''exit status 1'')),
       \<lparr>world = [?e1],
        issued = [c_verify ''feature-x'', c_toplevel, c_list, c_status ''/wt'',
                  c_verify ''feature-x__wt_detach'', c_create ''/wt'' ''feature-x__wt_detach'',
                  c_checkout ''/wt'' ''feature-x__wt_detach'']\<rparr>)"
    by (simp add: Checkout_def scripted_RunInDir)
  show ?thesis
    using Detach_rollback [OF 1 2 3 4 5 6 7 8]
    by (simp add: DeleteBranch_def scripted_Run)
qed

theorem suffix_never_empty_witness:
  "configured scripted
     (SetSuffix (fst (LoadSuffixFromConfig scripted NewDetacher
        \<lparr>world = [(''__tmp'' @ [NL], None)], issued = []\<rparr>)) [])
   \<and> suffix_field (SetSuffix (fst (LoadSuffixFromConfig scripted NewDetacher
        \<lparr>world = [(''__tmp'' @ [NL], None)], issued = []\<rparr>)) []) = ''__tmp''
   \<and> TempBranchName (SetSuffix (fst (LoadSuffixFromConfig scripted NewDetacher
        \<lparr>world = [(''__tmp'' @ [NL], None)], issued = []\<rparr>)) []) ''feature-x'' \<noteq> ''feature-x''"
proof -
  let ?d = "SetSuffix (fst (LoadSuffixFromConfig scripted NewDetacher
        \<lparr>world = [(''__tmp'' @ [NL], None)], issued = []\<rparr>)) []"
  have c: "configured scripted ?d"
    by (intro configured.intros)
  have t: "TrimSpace (''__tmp'' @ [NL]) = ''__tmp''"
    by (simp add: TrimSpace_def trim_left.simps trim_right.simps space_encodings_def suffix_to_prefix)
  have s: "suffix_field ?d = ''__tmp''"
    by (simp add: SetSuffix_def LoadSuffixFromConfig_def scripted_Run t [simplified])
  from suffix_never_empty [where git = scripted and d = ?d and b = "''feature-x''"] c
  have "TempBranchName ?d ''feature-x'' \<noteq> ''feature-x''" by blast
  with c s show ?thesis by simp
qed

lemma TrimSpace_many_files: "TrimSpace many_files_status \<noteq> []"
  by (simp add: many_files_status_def TrimSpace_def trim_left.simps trim_right.simps
      space_encodings_def suffix_to_prefix)

lemma repo_dirty_steps:
  "BranchExists git_model ''feature-y'' \<lparr>world = repo_dirty, issued = i\<rparr> =
     (True, \<lparr>world = repo_dirty, issued = i @ [c_verify ''feature-y'']\<rparr>)"
  "FindWorktreeForBranch git_model ''feature-y'' \<lparr>world = repo_dirty, issued = i\<rparr> =
     (Inr (Some \<lparr>Path = ''/wt'', Branch = ''feature-y''\<rparr>),
      \<lparr>world = repo_dirty, issued = i @ [c_toplevel, c_list]\<rparr>)"
  "HasUncommittedChanges git_model ''/wt'' \<lparr>world = repo_dirty, issued = i\<rparr> =
     (True, \<lparr>world = repo_dirty, issued = i @ [c_status ''/wt'']\<rparr>)"
proof -
  show "BranchExists git_model ''feature-y'' \<lparr>world = repo_dirty, issued = i\<rparr> =
     (True, \<lparr>world = repo_dirty, issued = i @ [c_verify ''feature-y'']\<rparr>)"
    by (simp add: git_BranchExists) (simp add: repo_dirty_def)
  show "FindWorktreeForBranch git_model ''feature-y'' \<lparr>world = repo_dirty, issued = i\<rparr> =
     (Inr (Some \<lparr>Path = ''/wt'', Branch = ''feature-y''\<rparr>),
      \<lparr>world = repo_dirty, issued = i @ [c_toplevel, c_list]\<rparr>)"
    by (simp add: git_lookup [OF wf_repo_dirty]) (simp add: repo_dirty_def wt_record_def)
  show "HasUncommittedChanges git_model ''/wt'' \<lparr>world = repo_dirty, issued = i\<rparr> =
     (True, \<lparr>world = repo_dirty, issued = i @ [c_status ''/wt'']\<rparr>)"
    by (simp add: git_HasUncommittedChanges) (simp add: repo_dirty_def TrimSpace_many_files)
qed

text \<open>
  Claim C2. The error that \<open>Detach\<close> returns for uncommitted changes is made from the
  worktree path alone. In \<open>repo_dirty\<close> the status of the target worktree lists eleven
  files; \<open>Detach\<close> asks for the status once, never for the files, and the message of
  its error names the path and the hint to use force: it has no list of files and no
  count of them.
\<close>

theorem Detach_uncommitted_error_has_no_file_list:
  "length (scan_lines many_files_status) = 11
   \<and> Detach git_model NewDetacher ''feature-y'' default_opts \<lparr>world = repo_dirty, issued = []\<rparr> =
       (Inl (UncommittedChanges ''/wt''),
        \<lparr>world = repo_dirty,
         issued = [c_verify ''feature-y'', c_toplevel, c_list, c_status ''/wt'']\<rparr>)
   \<and> error_message (UncommittedChanges ''/wt'') =
       ''uncommitted changes found in worktree: /wt'' @ [NL] @ ''  Use --force to override''"
proof -
  have "length (scan_lines many_files_status) = 11"
    by (simp add: many_files_status_def scan_lines.simps MaxScanTokenSize_def dropCR_def)
  moreover have "Detach git_model NewDetacher ''feature-y'' default_opts \<lparr>world = repo_dirty, issued = []\<rparr> =
       (Inl (UncommittedChanges ''/wt''),
        \<lparr>world = repo_dirty,
         issued = [c_verify ''feature-y'', c_toplevel, c_list, c_status ''/wt'']\<rparr>)"
    by (simp add: Detach_def repo_dirty_steps default_opts_def)
  ultimately show ?thesis by simp
qed

end
